theory Spec2Isabelle
  imports Complex_Main
begin

section \<open>The smallcart storefront: cart, checkout and order ledger\<close>

text \<open>
  This theory embeds the database models and the cart, checkout and admin
  routes of \<^verbatim>\<open>app.py\<close>. A table is the list of its rows in rowid order;
  a route is a function from the request's inputs and the database to an outcome
  and the database after the request. A request that ends before
  \<^verbatim>\<open>db.session.commit()\<close> returns the database it was given.

  Conventions of the embedding:
  \<^item> the column \<open>c\<close> of a model class is the record field with the class's prefix:
    \<open>p_\<close> for \<^verbatim>\<open>Product\<close>, \<open>ci_\<close> for \<^verbatim>\<open>CartItem\<close>, \<open>o_\<close> for
    \<^verbatim>\<open>Order\<close>, \<open>oi_\<close> for \<^verbatim>\<open>OrderItem\<close>, \<open>u_\<close> for \<^verbatim>\<open>User\<close>;
  \<^item> Python integers are \<open>int\<close>, and so are \<^verbatim>\<open>db.Integer\<close> columns; a column
    holds 64-bit values only, and an integer outside that range that is bound as a
    parameter of a statement raises \<open>OverflowError\<close>, which ends the request before
    anything is committed;
  \<^item> the type of \<^verbatim>\<open>db.Float\<close> values is the type variable \<open>'f\<close>, and Python's
    operations on them are parameters (\<open>float_ops\<close>): nothing is assumed about how
    they round;
  \<^item> \<^verbatim>\<open>db.DateTime\<close> columns are integers (a clock reading), and the reading of
    \<^verbatim>\<open>datetime.utcnow\<close> is an input of the routes that insert rows;
  \<^item> \<^verbatim>\<open>current_user\<close> is a \<open>User option\<close>, \<open>None\<close> for an anonymous request;
  \<^item> form fields are taken as the values that \<^verbatim>\<open>int(...)\<close> and
    \<^verbatim>\<open>float(...)\<close> return.
\<close>

subsection \<open>Database models\<close>

type_synonym datetime = int

record User =
  u_id :: int
  u_username :: string
  u_email :: string
  u_password_hash :: string
  u_is_admin :: bool

record 'f Product =
  p_id :: int
  p_name :: string
  p_description :: string
  p_price :: "'f"
  p_stock :: int
  p_image_url :: string
  p_created_at :: datetime

record 'f Order =
  o_id :: int
  o_user_id :: int
  o_total_amount :: "'f"
  o_status :: string
  o_created_at :: datetime

record 'f OrderItem =
  oi_id :: int
  oi_order_id :: int
  oi_product_id :: int
  oi_quantity :: int
  oi_price :: "'f"

record CartItem =
  ci_id :: int
  ci_user_id :: int
  ci_product_id :: int
  ci_quantity :: int

text \<open>The database: one list of rows per table, in rowid order.\<close>

record 'f db =
  products :: "'f Product list"
  cart_items :: "CartItem list"
  orders :: "'f Order list"
  order_items :: "'f OrderItem list"

definition empty_db :: "'f db" where
  "empty_db = \<lparr>products = [], cart_items = [], orders = [], order_items = []\<rparr>"

text \<open>
  The ways a request ends without doing its work: \<^verbatim>\<open>get_or_404\<close> aborts with
  \<open>NotFound\<close>; the ownership test of the cart routes flashes
  \<^verbatim>\<open>'Unauthorized access.'\<close>; checkout flashes \<^verbatim>\<open>'Your cart is empty.'\<close>;
  \<^verbatim>\<open>login_required\<close> and \<^verbatim>\<open>admin_required\<close> redirect to the login page;
  reading \<^verbatim>\<open>.price\<close> of a missing product (the relationship is \<^verbatim>\<open>None\<close>) raises
  \<open>AttributeError\<close>; binding an integer that SQLite cannot hold raises
  \<open>OverflowError\<close>.
\<close>

datatype error =
  NotFound | Unauthorized | EmptyCart | LoginRequired | AdminRequired | AttributeError |
  OverflowError

datatype outcome = Ok | Err error

subsection \<open>Integers and floats\<close>

text \<open>
  The values of an SQLite \<^verbatim>\<open>INTEGER\<close>: the 64-bit signed integers. The driver
  refuses any other Python integer as the parameter of a statement.
\<close>

definition fits_int64 :: "int \<Rightarrow> bool" where
  "fits_int64 n \<longleftrightarrow> - (2 ^ 63) \<le> n \<and> n < 2 ^ 63"

text \<open>
  What \<^verbatim>\<open>get_or_404\<close> ends with when no row has the key: 404 for a key that can
  be bound, and the driver's error for one that cannot. Every key of a stored row can be
  bound.
\<close>

definition no_row :: "int \<Rightarrow> error" where
  "no_row key = (if fits_int64 key then NotFound else OverflowError)"

text \<open>
  Python's arithmetic on floats, as far as checkout uses it: the product
  \<^verbatim>\<open>quantity * price\<close> of an integer and a float, and the built-in
  \<^verbatim>\<open>sum\<close> of a sequence of floats.
\<close>

record 'f float_ops =
  int_times :: "int \<Rightarrow> 'f \<Rightarrow> 'f"
  py_sum :: "'f list \<Rightarrow> 'f"

text \<open>The same operations without rounding, on real numbers. The examples below use
  them on prices and quantities whose products and sums are binary fractions that a
  64-bit float holds exactly, so that rounding operations give the same rows.\<close>

definition exact :: "real float_ops" where
  "exact = \<lparr>int_times = (\<lambda>q x. real_of_int q * x), py_sum = sum_list\<rparr>"

subsection \<open>Queries\<close>

text \<open>
  The integer primary key of a new row: SQLite gives a row one more than the largest
  rowid of the table, and 1 in an empty table. (Keys are only ever given this way, so
  the largest rowid is far from the end of the 64-bit range.)
\<close>

definition next_id :: "int list \<Rightarrow> int" where
  "next_id ids = (if ids = [] then 1 else fold max ids (hd ids) + 1)"

text \<open>\<^verbatim>\<open>Product.query.get(product_id)\<close>, also behind \<^verbatim>\<open>get_or_404\<close> and the
  relationship \<^verbatim>\<open>cart_item.product\<close>.\<close>

definition get_product :: "'f db \<Rightarrow> int \<Rightarrow> 'f Product option" where
  "get_product d product_id = find (\<lambda>p. p_id p = product_id) (products d)"

definition get_cart_item :: "'f db \<Rightarrow> int \<Rightarrow> CartItem option" where
  "get_cart_item d item_id = find (\<lambda>i. ci_id i = item_id) (cart_items d)"

definition get_order :: "'f db \<Rightarrow> int \<Rightarrow> 'f Order option" where
  "get_order d order_id = find (\<lambda>r. o_id r = order_id) (orders d)"

text \<open>\<^verbatim>\<open>CartItem.query.filter_by(user_id=current_user.id).all()\<close>\<close>

definition cart_of :: "'f db \<Rightarrow> int \<Rightarrow> CartItem list" where
  "cart_of d user_id = filter (\<lambda>i. ci_user_id i = user_id) (cart_items d)"

subsection \<open>Cart routes\<close>

definition add_to_cart :: "User option \<Rightarrow> int \<Rightarrow> 'f db \<Rightarrow> outcome \<times> 'f db" where
  "add_to_cart current_user product_id d =
     (case current_user of
        None \<Rightarrow> (Err LoginRequired, d)
      | Some u \<Rightarrow>
          (case get_product d product_id of
             None \<Rightarrow> (Err (no_row product_id), d)
           | Some product \<Rightarrow>
               (case find (\<lambda>i. ci_user_id i = u_id u \<and> ci_product_id i = product_id)
                       (cart_items d) of
                  Some existing_item \<Rightarrow>
                    if fits_int64 (ci_quantity existing_item + 1)
                    then (Ok, d\<lparr>cart_items :=
                       map (\<lambda>i. if ci_id i = ci_id existing_item
                                 then i\<lparr>ci_quantity := ci_quantity existing_item + 1\<rparr>
                                 else i)
                           (cart_items d)\<rparr>)
                    else (Err OverflowError, d)
                | None \<Rightarrow>
                    (Ok, d\<lparr>cart_items := cart_items d @
                       [\<lparr>ci_id = next_id (map ci_id (cart_items d)),
                         ci_user_id = u_id u,
                         ci_product_id = product_id,
                         ci_quantity = 1\<rparr>]\<rparr>))))"

definition update_cart :: "User option \<Rightarrow> int \<Rightarrow> int \<Rightarrow> 'f db \<Rightarrow> outcome \<times> 'f db" where
  "update_cart current_user item_id quantity d =
     (case current_user of
        None \<Rightarrow> (Err LoginRequired, d)
      | Some u \<Rightarrow>
          (case get_cart_item d item_id of
             None \<Rightarrow> (Err (no_row item_id), d)
           | Some cart_item \<Rightarrow>
               if ci_user_id cart_item \<noteq> u_id u then (Err Unauthorized, d)
               else if quantity \<le> 0
               then (Ok, d\<lparr>cart_items :=
                       filter (\<lambda>i. ci_id i \<noteq> ci_id cart_item) (cart_items d)\<rparr>)
               else if fits_int64 quantity
               then (Ok, d\<lparr>cart_items :=
                       map (\<lambda>i. if ci_id i = ci_id cart_item
                                 then i\<lparr>ci_quantity := quantity\<rparr> else i)
                           (cart_items d)\<rparr>)
               else (Err OverflowError, d)))"

definition remove_from_cart :: "User option \<Rightarrow> int \<Rightarrow> 'f db \<Rightarrow> outcome \<times> 'f db" where
  "remove_from_cart current_user item_id d =
     (case current_user of
        None \<Rightarrow> (Err LoginRequired, d)
      | Some u \<Rightarrow>
          (case get_cart_item d item_id of
             None \<Rightarrow> (Err (no_row item_id), d)
           | Some cart_item \<Rightarrow>
               if ci_user_id cart_item \<noteq> u_id u then (Err Unauthorized, d)
               else (Ok, d\<lparr>cart_items :=
                       filter (\<lambda>i. ci_id i \<noteq> ci_id cart_item) (cart_items d)\<rparr>)))"

subsection \<open>Checkout\<close>

text \<open>
  The terms of \<^verbatim>\<open>sum(item.quantity * item.product.price for item in cart_items)\<close>,
  in the order of the cart lines; a term whose product is missing raises.
\<close>

fun line_totals :: "'f float_ops \<Rightarrow> 'f db \<Rightarrow> CartItem list \<Rightarrow> error + 'f list" where
  "line_totals fl d [] = Inr []"
| "line_totals fl d (item # rest) =
     (case get_product d (ci_product_id item) of
        None \<Rightarrow> Inl AttributeError
      | Some product \<Rightarrow>
          (case line_totals fl d rest of
             Inl e \<Rightarrow> Inl e
           | Inr totals \<Rightarrow> Inr (int_times fl (ci_quantity item) (p_price product) # totals)))"

text \<open>
  The loop over the cart lines: each line adds one \<^verbatim>\<open>OrderItem\<close> for the order and
  takes the line's quantity off the stock of its product, in the session. Nothing
  compares the stock with the quantity.
\<close>

fun checkout_items :: "int \<Rightarrow> CartItem list \<Rightarrow> 'f db \<Rightarrow> error + 'f db" where
  "checkout_items order_id [] d = Inr d"
| "checkout_items order_id (cart_item # rest) d =
     (case get_product d (ci_product_id cart_item) of
        None \<Rightarrow> Inl AttributeError
      | Some product \<Rightarrow>
          checkout_items order_id rest
            (d\<lparr>order_items := order_items d @
                 [\<lparr>oi_id = next_id (map oi_id (order_items d)),
                   oi_order_id = order_id,
                   oi_product_id = ci_product_id cart_item,
                   oi_quantity = ci_quantity cart_item,
                   oi_price = p_price product\<rparr>],
               products :=
                 map (\<lambda>p. if p_id p = p_id product
                           then p\<lparr>p_stock := p_stock product - ci_quantity cart_item\<rparr>
                           else p)
                     (products d)\<rparr>))"

text \<open>
  The session is flushed after the loop, when the cart is cleared: the stock of every
  product whose stock has changed is written, and a stock outside the 64-bit range
  raises there. The other integers written are ids and quantities read from stored rows.
\<close>

definition stock_writes_fit :: "'f Product list \<Rightarrow> 'f Product list \<Rightarrow> bool" where
  "stock_writes_fit before after \<longleftrightarrow>
     list_all2 (\<lambda>p p'. p_stock p' = p_stock p \<or> fits_int64 (p_stock p')) before after"

definition checkout :: "'f float_ops \<Rightarrow> User option \<Rightarrow> datetime \<Rightarrow> 'f db \<Rightarrow> outcome \<times> 'f db" where
  "checkout fl current_user now d =
     (case current_user of
        None \<Rightarrow> (Err LoginRequired, d)
      | Some u \<Rightarrow>
          (let cart = cart_of d (u_id u) in
           if cart = [] then (Err EmptyCart, d)
           else
             (case line_totals fl d cart of
                Inl e \<Rightarrow> (Err e, d)
              | Inr totals \<Rightarrow>
                  (let order = \<lparr>o_id = next_id (map o_id (orders d)),
                                o_user_id = u_id u,
                                o_total_amount = py_sum fl totals,
                                o_status = ''pending'',
                                o_created_at = now\<rparr>
                   in case checkout_items (o_id order) cart
                             (d\<lparr>orders := orders d @ [order]\<rparr>) of
                        Inl e \<Rightarrow> (Err e, d)
                      | Inr d' \<Rightarrow>
                          if stock_writes_fit (products d) (products d')
                          then (Ok, d'\<lparr>cart_items :=
                                  filter (\<lambda>i. ci_user_id i \<noteq> u_id u) (cart_items d')\<rparr>)
                          else (Err OverflowError, d)))))"

text \<open>
  \<^verbatim>\<open>order_history\<close>: the orders of the current user, newest first. The order of
  two rows with the same timestamp is not fixed by the query.
\<close>

definition order_history :: "User option \<Rightarrow> 'f db \<Rightarrow> outcome \<times> 'f Order list" where
  "order_history current_user d =
     (case current_user of
        None \<Rightarrow> (Err LoginRequired, [])
      | Some u \<Rightarrow>
          (Ok, sort_key (\<lambda>r. - o_created_at r)
                 (filter (\<lambda>r. o_user_id r = u_id u) (orders d))))"

subsection \<open>Admin routes\<close>

text \<open>\<^verbatim>\<open>admin_required\<close>, under \<^verbatim>\<open>login_required\<close>.\<close>

definition admin_required :: "User option \<Rightarrow> error option" where
  "admin_required current_user =
     (case current_user of
        None \<Rightarrow> Some LoginRequired
      | Some u \<Rightarrow> if u_is_admin u then None else Some AdminRequired)"

text \<open>The fields of the product form, after \<^verbatim>\<open>float\<close> and \<^verbatim>\<open>int\<close>.\<close>

record 'f product_form =
  f_name :: string
  f_description :: string
  f_price :: "'f"
  f_stock :: int
  f_image_url :: string

text \<open>The POST branch of \<^verbatim>\<open>admin_add_product\<close>.\<close>

definition admin_add_product ::
  "User option \<Rightarrow> 'f product_form \<Rightarrow> datetime \<Rightarrow> 'f db \<Rightarrow> outcome \<times> 'f db" where
  "admin_add_product current_user form now d =
     (case admin_required current_user of
        Some e \<Rightarrow> (Err e, d)
      | None \<Rightarrow>
          if fits_int64 (f_stock form)
          then (Ok, d\<lparr>products := products d @
             [\<lparr>p_id = next_id (map p_id (products d)),
               p_name = f_name form,
               p_description = f_description form,
               p_price = f_price form,
               p_stock = f_stock form,
               p_image_url = f_image_url form,
               p_created_at = now\<rparr>]\<rparr>)
          else (Err OverflowError, d))"

text \<open>\<^verbatim>\<open>admin_edit_product\<close>: \<open>None\<close> is a GET request, \<open>Some form\<close> a POST.\<close>

definition admin_edit_product ::
  "User option \<Rightarrow> int \<Rightarrow> 'f product_form option \<Rightarrow> 'f db \<Rightarrow> outcome \<times> 'f db" where
  "admin_edit_product current_user product_id request d =
     (case admin_required current_user of
        Some e \<Rightarrow> (Err e, d)
      | None \<Rightarrow>
          (case get_product d product_id of
             None \<Rightarrow> (Err (no_row product_id), d)
           | Some product \<Rightarrow>
               (case request of
                  None \<Rightarrow> (Ok, d)
                | Some form \<Rightarrow>
                    if fits_int64 (f_stock form)
                    then (Ok, d\<lparr>products :=
                       map (\<lambda>p. if p_id p = p_id product
                                 then p\<lparr>p_name := f_name form,
                                        p_description := f_description form,
                                        p_price := f_price form,
                                        p_stock := f_stock form,
                                        p_image_url := f_image_url form\<rparr>
                                 else p)
                           (products d)\<rparr>)
                    else (Err OverflowError, d))))"

definition admin_update_order_status ::
  "User option \<Rightarrow> int \<Rightarrow> string \<Rightarrow> 'f db \<Rightarrow> outcome \<times> 'f db" where
  "admin_update_order_status current_user order_id status d =
     (case admin_required current_user of
        Some e \<Rightarrow> (Err e, d)
      | None \<Rightarrow>
          (case get_order d order_id of
             None \<Rightarrow> (Err (no_row order_id), d)
           | Some order \<Rightarrow>
               (Ok, d\<lparr>orders :=
                  map (\<lambda>r. if o_id r = o_id order then r\<lparr>o_status := status\<rparr> else r)
                      (orders d)\<rparr>)))"

subsection \<open>Requests in sequence\<close>

text \<open>One request to one of the routes above, and a sequence of requests served one
  after the other, each on the database the one before it left.\<close>

datatype 'f request =
    AddToCart "User option" int
  | UpdateCart "User option" int int
  | RemoveFromCart "User option" int
  | Checkout "User option" datetime
  | AdminAddProduct "User option" "'f product_form" datetime
  | AdminEditProduct "User option" int "'f product_form option"
  | AdminUpdateOrderStatus "User option" int string

fun handle :: "'f float_ops \<Rightarrow> 'f request \<Rightarrow> 'f db \<Rightarrow> outcome \<times> 'f db" where
  "handle fl (AddToCart cu product_id) d = add_to_cart cu product_id d"
| "handle fl (UpdateCart cu item_id quantity) d = update_cart cu item_id quantity d"
| "handle fl (RemoveFromCart cu item_id) d = remove_from_cart cu item_id d"
| "handle fl (Checkout cu now) d = checkout fl cu now d"
| "handle fl (AdminAddProduct cu form now) d = admin_add_product cu form now d"
| "handle fl (AdminEditProduct cu product_id req) d = admin_edit_product cu product_id req d"
| "handle fl (AdminUpdateOrderStatus cu order_id status) d =
     admin_update_order_status cu order_id status d"

fun run :: "'f float_ops \<Rightarrow> 'f request list \<Rightarrow> 'f db \<Rightarrow> 'f db" where
  "run fl [] d = d"
| "run fl (r # rs) d = run fl rs (snd (handle fl r d))"

subsection \<open>Integrity of the database\<close>

text \<open>
  The primary keys of each table are distinct (the database engine enforces it); a user
  has at most one cart line per product; every order item belongs to an order of the
  ledger. The requests above keep all three.
\<close>

definition primary_keys :: "'f db \<Rightarrow> bool" where
  "primary_keys d \<longleftrightarrow>
     distinct (map p_id (products d)) \<and> distinct (map ci_id (cart_items d)) \<and>
     distinct (map o_id (orders d)) \<and> distinct (map oi_id (order_items d))"

definition cart_unique :: "'f db \<Rightarrow> bool" where
  "cart_unique d \<longleftrightarrow> distinct (map (\<lambda>i. (ci_user_id i, ci_product_id i)) (cart_items d))"

definition items_belong :: "'f db \<Rightarrow> bool" where
  "items_belong d \<longleftrightarrow> (\<forall>oi \<in> set (order_items d). oi_order_id oi \<in> set (map o_id (orders d)))"

definition wf_db :: "'f db \<Rightarrow> bool" where
  "wf_db d \<longleftrightarrow> primary_keys d \<and> cart_unique d \<and> items_belong d"

text \<open>The cart lines of a user for one product, and the quantity of a product that a
  list of cart lines asks for.\<close>

definition lines_of :: "'f db \<Rightarrow> int \<Rightarrow> int \<Rightarrow> CartItem list" where
  "lines_of d user_id product_id =
     filter (\<lambda>i. ci_user_id i = user_id \<and> ci_product_id i = product_id) (cart_items d)"

definition ordered_quantity :: "CartItem list \<Rightarrow> int \<Rightarrow> int" where
  "ordered_quantity cart product_id =
     sum_list (map ci_quantity (filter (\<lambda>i. ci_product_id i = product_id) cart))"

subsection \<open>The cart ledger of the specification\<close>

text \<open>
  What the specification says a cart line's quantity is: the number of \<open>add\<close> calls
  since the line was created, adjusted by \<open>setQuantity\<close> overwrites and by deletions.
  A call is an event on the pair (user id, product id) of the line it acts on. The logs
  hold the latest event first.
\<close>

datatype cart_event =
    Added int int
  | Overwritten int int int
  | Deleted int int
  | Cleared int

text \<open>The event of a request, for a request that acts on the cart.\<close>

fun cart_event_of :: "'f request \<Rightarrow> 'f db \<Rightarrow> cart_event list" where
  "cart_event_of (AddToCart (Some u) product_id) d = [Added (u_id u) product_id]"
| "cart_event_of (UpdateCart (Some u) item_id quantity) d =
     (case get_cart_item d item_id of
        None \<Rightarrow> []
      | Some line \<Rightarrow>
          if quantity \<le> 0 then [Deleted (u_id u) (ci_product_id line)]
          else [Overwritten (u_id u) (ci_product_id line) quantity])"
| "cart_event_of (RemoveFromCart (Some u) item_id) d =
     (case get_cart_item d item_id of
        None \<Rightarrow> []
      | Some line \<Rightarrow> [Deleted (u_id u) (ci_product_id line)])"
| "cart_event_of (Checkout (Some u) now) d = [Cleared (u_id u)]"
| "cart_event_of r d = []"

text \<open>
  The calls as the specification counts them: a call fails when the product or the line
  does not exist (\<open>NotFound\<close>), when the line is another user's (\<open>Unauthorized\<close>) or
  when the cart is empty at checkout (\<open>EmptyCart\<close>), and every other call takes effect.
\<close>

fun spec_events :: "'f request \<Rightarrow> 'f db \<Rightarrow> cart_event list" where
  "spec_events (AddToCart (Some u) product_id) d =
     (if get_product d product_id = None then [] else [Added (u_id u) product_id])"
| "spec_events (UpdateCart (Some u) item_id quantity) d =
     (case get_cart_item d item_id of
        None \<Rightarrow> []
      | Some line \<Rightarrow>
          if ci_user_id line \<noteq> u_id u then []
          else if quantity \<le> 0 then [Deleted (u_id u) (ci_product_id line)]
          else [Overwritten (u_id u) (ci_product_id line) quantity])"
| "spec_events (RemoveFromCart (Some u) item_id) d =
     (case get_cart_item d item_id of
        None \<Rightarrow> []
      | Some line \<Rightarrow>
          if ci_user_id line \<noteq> u_id u then []
          else [Deleted (u_id u) (ci_product_id line)])"
| "spec_events (Checkout (Some u) now) d =
     (if cart_of d (u_id u) = [] then [] else [Cleared (u_id u)])"
| "spec_events r d = []"

fun spec_log :: "'f float_ops \<Rightarrow> 'f request list \<Rightarrow> 'f db \<Rightarrow> cart_event list" where
  "spec_log fl [] d = []"
| "spec_log fl (r # rs) d = spec_log fl rs (snd (handle fl r d)) @ spec_events r d"

text \<open>The calls that the code carries out: the event of a request that ends \<open>Ok\<close>.\<close>

definition cart_events :: "'f float_ops \<Rightarrow> 'f request \<Rightarrow> 'f db \<Rightarrow> cart_event list" where
  "cart_events fl r d = (if fst (handle fl r d) = Ok then cart_event_of r d else [])"

fun cart_log :: "'f float_ops \<Rightarrow> 'f request list \<Rightarrow> 'f db \<Rightarrow> cart_event list" where
  "cart_log fl [] d = []"
| "cart_log fl (r # rs) d = cart_log fl rs (snd (handle fl r d)) @ cart_events fl r d"

text \<open>An event that ends the count of a pair: an overwrite or a deletion of its line.\<close>

fun resets :: "int \<Rightarrow> int \<Rightarrow> cart_event \<Rightarrow> bool" where
  "resets user_id product_id (Added u p) = False"
| "resets user_id product_id (Overwritten u p q) = (u = user_id \<and> p = product_id)"
| "resets user_id product_id (Deleted u p) = (u = user_id \<and> p = product_id)"
| "resets user_id product_id (Cleared u) = (u = user_id)"

fun base_quantity :: "cart_event list \<Rightarrow> int" where
  "base_quantity (Overwritten u p q # earlier) = q"
| "base_quantity evs = 0"

text \<open>The quantity the specification expects: the quantity of the latest overwrite
  (0 after a deletion, and at the start), plus the number of \<open>add\<close> calls since.\<close>

definition expected_quantity :: "cart_event list \<Rightarrow> int \<Rightarrow> int \<Rightarrow> int" where
  "expected_quantity evs user_id product_id =
     base_quantity (dropWhile (\<lambda>e. \<not> resets user_id product_id e) evs) +
     int (length (filter (\<lambda>e. e = Added user_id product_id)
                    (takeWhile (\<lambda>e. \<not> resets user_id product_id e) evs)))"

text \<open>The cart agrees with a log of events: line ids are distinct, and for every
  user and product the cart holds no line when the expected quantity is 0, and one line
  with that quantity otherwise.\<close>

definition ledger_ok :: "'f db \<Rightarrow> cart_event list \<Rightarrow> bool" where
  "ledger_ok d evs \<longleftrightarrow>
     distinct (map ci_id (cart_items d)) \<and>
     (\<forall>user_id product_id.
        0 \<le> expected_quantity evs user_id product_id \<and>
        map ci_quantity (lines_of d user_id product_id) =
          (if expected_quantity evs user_id product_id = 0 then []
           else [expected_quantity evs user_id product_id]))"

subsection \<open>Example data\<close>

definition admin :: User where
  "admin = \<lparr>u_id = 1, u_username = ''admin'', u_email = ''admin@gmail.com'',
             u_password_hash = ''pbkdf2'', u_is_admin = True\<rparr>"

definition alice :: User where
  "alice = \<lparr>u_id = 2, u_username = ''alice'', u_email = ''alice@example.com'',
             u_password_hash = ''pbkdf2'', u_is_admin = False\<rparr>"

definition bob :: User where
  "bob = \<lparr>u_id = 3, u_username = ''bob'', u_email = ''bob@example.com'',
           u_password_hash = ''pbkdf2'', u_is_admin = False\<rparr>"

definition headphones :: "real product_form" where
  "headphones = \<lparr>f_name = ''Headphones'', f_description = ''Wireless'',
                  f_price = 10, f_stock = 1, f_image_url = ''''\<rparr>"

definition tablet :: "real product_form" where
  "tablet = \<lparr>f_name = ''Tablet'', f_description = ''10-inch tablet with stylus'',
              f_price = 449.5, f_stock = 20, f_image_url = ''''\<rparr>"

text \<open>A shop with two products; alice has put the headphones in her cart twice and a
  tablet once, bob has one tablet in his.\<close>

definition shop_requests :: "real request list" where
  "shop_requests =
     [AdminAddProduct (Some admin) headphones 100,
      AdminAddProduct (Some admin) tablet 101,
      AddToCart (Some alice) 1,
      AddToCart (Some bob) 2,
      AddToCart (Some alice) 1,
      AddToCart (Some alice) 2]"

definition shop :: "real db" where
  "shop = run exact shop_requests empty_db"

text \<open>A session on the cart routes: alice adds the headphones three times, sets the
  quantity to 5 and adds once more; bob adds them, tries to change alice's line, removes
  his own line, adds again, and asks for a product that does not exist.\<close>

definition cart_session :: "real request list" where
  "cart_session =
     [AdminAddProduct (Some admin) headphones 100,
      AddToCart (Some alice) 1,
      AddToCart (Some alice) 1,
      AddToCart (Some alice) 1,
      UpdateCart (Some alice) 1 5,
      AddToCart (Some alice) 1,
      AddToCart (Some bob) 1,
      UpdateCart (Some bob) 1 9,
      RemoveFromCart (Some bob) 2,
      AddToCart (Some bob) 1,
      AddToCart (Some bob) 7]"

text \<open>The shop after alice has checked out, at time 200.\<close>

definition sold :: "real db" where
  "sold = snd (checkout exact (Some alice) 200 shop)"

text \<open>A cart at the end of the 64-bit range: alice adds the headphones and sets the
  quantity to the largest 64-bit integer.\<close>

definition full_requests :: "real request list" where
  "full_requests =
     [AdminAddProduct (Some admin) headphones 100,
      AddToCart (Some alice) 1,
      UpdateCart (Some alice) 1 9223372036854775807]"

definition full :: "real db" where
  "full = run exact full_requests empty_db"


section \<open>Properties\<close>

subsection \<open>Rows and keys\<close>

text \<open>Rows of a table whose key column is distinct: a lookup by key finds the row, and
  an update or a deletion by key touches that row only.\<close>

lemma key_unique:
  "distinct (map k xs) \<Longrightarrow> x \<in> set xs \<Longrightarrow> y \<in> set xs \<Longrightarrow> k y = k x \<Longrightarrow> y = x"
  by (auto simp: distinct_map inj_on_def)

lemma find_key:
  "distinct (map k xs) \<Longrightarrow> x \<in> set xs \<Longrightarrow> find (\<lambda>y. k y = k x) xs = Some x"
  by (induction xs) (auto simp: image_iff)

lemma map_key:
  "distinct (map k xs) \<Longrightarrow> x \<in> set xs \<Longrightarrow>
   map (\<lambda>y. if k y = k x then f y else y) xs = map (\<lambda>y. if y = x then f x else y) xs"
  by (rule map_cong) (auto dest: key_unique)

lemma filter_key:
  "distinct (map k xs) \<Longrightarrow> x \<in> set xs \<Longrightarrow>
   filter (\<lambda>y. k y \<noteq> k x) xs = filter (\<lambda>y. y \<noteq> x) xs"
  by (rule filter_cong) (auto dest: key_unique)

lemma find_map_key:
  "(\<And>x. P (f x) = P x) \<Longrightarrow> find P (map f xs) = map_option f (find P xs)"
  by (induction xs) auto

lemma find_eq_filter:
  "find P xs = (case filter P xs of [] \<Rightarrow> None | x # _ \<Rightarrow> Some x)"
  by (induction xs) auto

lemma find_Some_set: "find P xs = Some x \<Longrightarrow> x \<in> set xs \<and> P x"
  by (auto simp: find_Some_iff)

lemma filter_map_same:
  "(\<And>x. P (g x) = P x) \<Longrightarrow> filter P (map g xs) = map g (filter P xs)"
  by (induction xs) auto

lemma map_key_same: "(\<And>x. k (g x) = k x) \<Longrightarrow> map k (map g xs) = map k xs"
  by (induction xs) auto

lemma all_same_single:
  assumes "distinct xs" and "x \<in> set xs" and "\<forall>i \<in> set xs. i = x"
  shows "xs = [x]"
proof (cases xs)
  case Nil
  with assms(2) show ?thesis by simp
next
  case (Cons a as)
  have "a = x" using assms(3) Cons by simp
  moreover have "as = []"
  proof (cases as)
    case Nil
    then show ?thesis .
  next
    case (Cons b bs)
    with \<open>xs = a # as\<close> assms(3) have "b = x" by simp
    with \<open>a = x\<close> \<open>xs = a # as\<close> Cons assms(1) show ?thesis by simp
  qed
  ultimately show ?thesis using Cons by simp
qed

text \<open>The key of a new row is larger than every key of the table.\<close>

lemma fold_max_ge: "(a::int) \<le> fold max xs a \<and> (\<forall>x \<in> set xs. x \<le> fold max xs a)"
proof (induction xs arbitrary: a)
  case Nil
  show ?case by simp
next
  case (Cons y ys)
  from Cons [of "max y a"] show ?case by auto
qed

lemma next_id_greater: "x \<in> set ids \<Longrightarrow> x < next_id ids"
  using fold_max_ge [of "hd ids" ids] by (auto simp: next_id_def)

lemma next_id_fresh: "next_id ids \<notin> set ids"
  using next_id_greater [of "next_id ids" ids] by auto

subsection \<open>Lookups\<close>

lemma get_product_Some:
  "get_product d product_id = Some p \<Longrightarrow> p \<in> set (products d) \<and> p_id p = product_id"
  by (auto simp: get_product_def find_Some_iff)

lemma get_product_restock:
  "get_product (d\<lparr>products := map (\<lambda>p. p\<lparr>p_stock := s p\<rparr>) (products d)\<rparr>) product_id =
   map_option (\<lambda>p. p\<lparr>p_stock := s p\<rparr>) (get_product d product_id)"
  by (simp add: get_product_def find_map_key)

lemma get_product_restocked:
  "products d1 = map (\<lambda>p. p\<lparr>p_stock := s p\<rparr>) (products d) \<Longrightarrow>
   get_product d1 product_id = map_option (\<lambda>p. p\<lparr>p_stock := s p\<rparr>) (get_product d product_id)"
  by (simp add: get_product_def find_map_key)

lemma get_cart_item_Some:
  "get_cart_item d item_id = Some line \<Longrightarrow> line \<in> set (cart_items d) \<and> ci_id line = item_id"
  by (auto simp: get_cart_item_def find_Some_iff)

lemma get_order_key:
  "distinct (map o_id (orders d)) \<Longrightarrow> ord \<in> set (orders d) \<Longrightarrow> get_order d (o_id ord) = Some ord"
  unfolding get_order_def by (rule find_key)

lemma lines_of_single:
  assumes "cart_unique d" and "line \<in> set (lines_of d user_id product_id)"
  shows "lines_of d user_id product_id = [line]"
proof -
  let ?k = "\<lambda>i. (ci_user_id i, ci_product_id i)"
  let ?xs = "lines_of d user_id product_id"
  have d: "distinct (map ?k ?xs)"
    using assms(1) unfolding cart_unique_def lines_of_def by (rule distinct_map_filter)
  have "\<forall>i \<in> set ?xs. i = line"
  proof
    fix i assume that: "i \<in> set ?xs"
    show "i = line"
  proof -
    have "?k i = ?k line" using that assms(2) by (simp add: lines_of_def)
    with d assms(2) that show ?thesis by (rule key_unique)
  qed
  qed
  moreover have "distinct ?xs"
    using d by (simp add: distinct_map)
  ultimately show ?thesis using assms(2) by (rule all_same_single [rotated 2])
qed

lemma ordered_quantity_line:
  assumes "cart_unique d" and "i \<in> set (cart_of d user_id)"
  shows "ordered_quantity (cart_of d user_id) (ci_product_id i) = ci_quantity i"
proof -
  have "filter (\<lambda>j. ci_product_id j = ci_product_id i) (cart_of d user_id) =
        lines_of d user_id (ci_product_id i)"
    by (simp add: cart_of_def lines_of_def conj_commute)
  moreover have "i \<in> set (lines_of d user_id (ci_product_id i))"
    using assms(2) by (simp add: cart_of_def lines_of_def)
  then have "lines_of d user_id (ci_product_id i) = [i]"
    using assms(1) by (simp add: lines_of_single [of d i])
  ultimately show ?thesis
    by (simp add: ordered_quantity_def)
qed

lemma ordered_quantity_none:
  "product_id \<notin> ci_product_id ` set cart \<Longrightarrow> ordered_quantity cart product_id = 0"
proof -
  assume "product_id \<notin> ci_product_id ` set cart"
  then have "filter (\<lambda>i. ci_product_id i = product_id) cart = []"
    by (auto simp: filter_empty_conv)
  then show ?thesis by (simp add: ordered_quantity_def)
qed

subsection \<open>The total and the loop of checkout\<close>

text \<open>The terms of the total are defined when every line's product exists, and then
  there is one term per cart line.\<close>

lemma line_totals_Inr:
  "line_totals fl d cart = Inr totals \<Longrightarrow>
   (\<forall>i \<in> set cart. get_product d (ci_product_id i) \<noteq> None) \<and>
   totals = map (\<lambda>i. int_times fl (ci_quantity i)
                        (p_price (the (get_product d (ci_product_id i))))) cart"
proof (induction cart arbitrary: totals)
  case Nil
  then show ?case by simp
next
  case (Cons item rest)
  from Cons.prems obtain product ts where
    p: "get_product d (ci_product_id item) = Some product" and
    r: "line_totals fl d rest = Inr ts" and
    t: "totals = int_times fl (ci_quantity item) (p_price product) # ts"
    by (auto split: option.splits sum.splits)
  from Cons.IH [OF r] p t show ?case by simp
qed

lemma line_totals_defined:
  "\<forall>i \<in> set cart. get_product d (ci_product_id i) \<noteq> None \<Longrightarrow>
   \<exists>totals. line_totals fl d cart = Inr totals"
  by (induction cart) auto

text \<open>With distinct product ids, one turn of the loop takes the line's quantity off
  the one product the line refers to.\<close>

lemma stock_update_by_key:
  assumes "distinct (map p_id (products d))" and "get_product d product_id = Some product"
  shows "map (\<lambda>p. if p_id p = p_id product then p\<lparr>p_stock := p_stock product - q\<rparr> else p) (products d) =
         map (\<lambda>p. p\<lparr>p_stock := p_stock p - (if p_id p = product_id then q else 0)\<rparr>) (products d)"
proof (rule map_cong [OF refl])
  fix p assume p: "p \<in> set (products d)"
  from assms(2) have m: "product \<in> set (products d)" and k: "p_id product = product_id"
    by (simp_all add: get_product_Some)
  show "(if p_id p = p_id product then p\<lparr>p_stock := p_stock product - q\<rparr> else p) =
        p\<lparr>p_stock := p_stock p - (if p_id p = product_id then q else 0)\<rparr>"
  proof (cases "p_id p = p_id product")
    case True
    with assms(1) m p have "p = product" by (rule key_unique)
    with k show ?thesis by simp
  next
    case False
    with k show ?thesis by simp
  qed
qed

lemma checkout_items_Cons:
  assumes "distinct (map p_id (products d))" and "get_product d (ci_product_id cart_item) = Some product"
  shows "checkout_items order_id (cart_item # rest) d =
         checkout_items order_id rest
           (d\<lparr>order_items := order_items d @
                [\<lparr>oi_id = next_id (map oi_id (order_items d)), oi_order_id = order_id,
                  oi_product_id = ci_product_id cart_item, oi_quantity = ci_quantity cart_item,
                  oi_price = p_price product\<rparr>],
              products := map (\<lambda>p. p\<lparr>p_stock := p_stock p -
                   (if p_id p = ci_product_id cart_item then ci_quantity cart_item else 0)\<rparr>)
                 (products d)\<rparr>)"
  using assms(2) by (simp add: stock_update_by_key [OF assms])

lemma checkout_items_products:
  "distinct (map p_id (products d)) \<Longrightarrow> checkout_items order_id cart d = Inr d' \<Longrightarrow>
   products d' = map (\<lambda>p. p\<lparr>p_stock := p_stock p - ordered_quantity cart (p_id p)\<rparr>) (products d)"
proof (induction cart arbitrary: d)
  case Nil
  then show ?case by (simp add: ordered_quantity_def)
next
  case (Cons item rest)
  from Cons.prems(2) obtain product where
    p: "get_product d (ci_product_id item) = Some product"
    by (auto split: option.splits)
  let ?d1 = "d\<lparr>order_items := order_items d @
                [\<lparr>oi_id = next_id (map oi_id (order_items d)), oi_order_id = order_id,
                  oi_product_id = ci_product_id item, oi_quantity = ci_quantity item,
                  oi_price = p_price product\<rparr>],
              products := map (\<lambda>p. p\<lparr>p_stock := p_stock p -
                   (if p_id p = ci_product_id item then ci_quantity item else 0)\<rparr>)
                 (products d)\<rparr>"
  have r: "checkout_items order_id rest ?d1 = Inr d'"
    using Cons.prems(2) checkout_items_Cons [OF Cons.prems(1) p] by simp
  have "distinct (map p_id (products ?d1))"
    using Cons.prems(1) by (simp add: comp_def)
  from Cons.IH [OF this r] show ?case
    by (simp add: ordered_quantity_def comp_def) 
qed

lemma checkout_items_frame:
  "checkout_items order_id cart d = Inr d' \<Longrightarrow> orders d' = orders d \<and> cart_items d' = cart_items d"
proof (induction cart arbitrary: d)
  case Nil
  then show ?case by simp
next
  case (Cons item rest)
  from Cons.prems obtain product where
    "get_product d (ci_product_id item) = Some product"
    by (auto split: option.splits)
  with Cons.prems Cons.IH show ?case by fastforce
qed

lemma checkout_items_ids:
  "distinct (map oi_id (order_items d)) \<Longrightarrow> checkout_items order_id cart d = Inr d' \<Longrightarrow>
   distinct (map oi_id (order_items d'))"
proof (induction cart arbitrary: d)
  case Nil
  then show ?case by simp
next
  case (Cons item rest)
  from Cons.prems(2) obtain product where
    p: "get_product d (ci_product_id item) = Some product"
    by (auto split: option.splits)
  show ?case
  proof (rule Cons.IH)
    show "checkout_items order_id rest
           (d\<lparr>order_items := order_items d @
                [\<lparr>oi_id = next_id (map oi_id (order_items d)), oi_order_id = order_id,
                  oi_product_id = ci_product_id item, oi_quantity = ci_quantity item,
                  oi_price = p_price product\<rparr>],
              products := map (\<lambda>x. if p_id x = p_id product
                      then x\<lparr>p_stock := p_stock product - ci_quantity item\<rparr> else x)
                 (products d)\<rparr>) = Inr d'"
      using Cons.prems(2) p by simp
    show "distinct (map oi_id (order_items
           (d\<lparr>order_items := order_items d @
                [\<lparr>oi_id = next_id (map oi_id (order_items d)), oi_order_id = order_id,
                  oi_product_id = ci_product_id item, oi_quantity = ci_quantity item,
                  oi_price = p_price product\<rparr>],
              products := map (\<lambda>x. if p_id x = p_id product
                      then x\<lparr>p_stock := p_stock product - ci_quantity item\<rparr> else x)
                 (products d)\<rparr>)))"
      using Cons.prems(1) next_id_fresh [of "map oi_id (order_items d)"] by simp
  qed
qed

lemma checkout_items_new:
  "distinct (map p_id (products d)) \<Longrightarrow> checkout_items order_id cart d = Inr d' \<Longrightarrow>
   \<exists>new. order_items d' = order_items d @ new \<and>
     list_all2 (\<lambda>i oi. oi_order_id oi = order_id \<and> oi_product_id oi = ci_product_id i \<and>
                  oi_quantity oi = ci_quantity i \<and>
                  (\<exists>p. get_product d (ci_product_id i) = Some p \<and> oi_price oi = p_price p))
       cart new"
proof (induction cart arbitrary: d)
  case Nil
  then show ?case by simp
next
  case (Cons item rest)
  from Cons.prems(2) obtain product where
    p: "get_product d (ci_product_id item) = Some product"
    by (auto split: option.splits)
  let ?oi = "\<lparr>oi_id = next_id (map oi_id (order_items d)), oi_order_id = order_id,
                  oi_product_id = ci_product_id item, oi_quantity = ci_quantity item,
                  oi_price = p_price product\<rparr>"
  let ?s = "\<lambda>p. p_stock p - (if p_id p = ci_product_id item then ci_quantity item else 0)"
  let ?d1 = "d\<lparr>order_items := order_items d @ [?oi],
              products := map (\<lambda>p. p\<lparr>p_stock := ?s p\<rparr>) (products d)\<rparr>"
  have r: "checkout_items order_id rest ?d1 = Inr d'"
    using Cons.prems(2) checkout_items_Cons [OF Cons.prems(1) p] by simp
  have "distinct (map p_id (products ?d1))"
    using Cons.prems(1) by (simp add: comp_def)
  from Cons.IH [OF this r] obtain new where
    n: "order_items d' = order_items ?d1 @ new" and
    l: "list_all2 (\<lambda>i oi. oi_order_id oi = order_id \<and> oi_product_id oi = ci_product_id i \<and>
                  oi_quantity oi = ci_quantity i \<and>
                  (\<exists>p. get_product ?d1 (ci_product_id i) = Some p \<and> oi_price oi = p_price p))
          rest new"
    by blast
  have g: "get_product ?d1 k = map_option (\<lambda>p. p\<lparr>p_stock := ?s p\<rparr>) (get_product d k)" for k
    by (rule get_product_restocked) simp
  have l': "list_all2 (\<lambda>i oi. oi_order_id oi = order_id \<and> oi_product_id oi = ci_product_id i \<and>
                  oi_quantity oi = ci_quantity i \<and>
                  (\<exists>p. get_product d (ci_product_id i) = Some p \<and> oi_price oi = p_price p))
          rest new"
    using l by (rule list_all2_mono) (auto simp: g)
  have "order_items d' = order_items d @ (?oi # new)" using n by simp
  moreover have "list_all2 (\<lambda>i oi. oi_order_id oi = order_id \<and> oi_product_id oi = ci_product_id i \<and>
                  oi_quantity oi = ci_quantity i \<and>
                  (\<exists>p. get_product d (ci_product_id i) = Some p \<and> oi_price oi = p_price p))
          (item # rest) (?oi # new)"
    using l' p by simp
  ultimately show ?case by blast
qed

lemma checkout_items_defined:
  "distinct (map p_id (products d)) \<Longrightarrow>
   \<forall>i \<in> set cart. get_product d (ci_product_id i) \<noteq> None \<Longrightarrow>
   \<exists>d'. checkout_items order_id cart d = Inr d'"
proof (induction cart arbitrary: d)
  case Nil
  then show ?case by simp
next
  case (Cons item rest)
  from Cons.prems(2) obtain product where
    p: "get_product d (ci_product_id item) = Some product"
    by auto
  let ?oi = "\<lparr>oi_id = next_id (map oi_id (order_items d)), oi_order_id = order_id,
                  oi_product_id = ci_product_id item, oi_quantity = ci_quantity item,
                  oi_price = p_price product\<rparr>"
  let ?s = "\<lambda>p. p_stock p - (if p_id p = ci_product_id item then ci_quantity item else 0)"
  let ?d1 = "d\<lparr>order_items := order_items d @ [?oi],
              products := map (\<lambda>p. p\<lparr>p_stock := ?s p\<rparr>) (products d)\<rparr>"
  have g: "get_product ?d1 k = map_option (\<lambda>p. p\<lparr>p_stock := ?s p\<rparr>) (get_product d k)" for k
    by (rule get_product_restocked) simp
  have 1: "distinct (map p_id (products ?d1))"
    using Cons.prems(1) by (simp add: comp_def)
  have 2: "\<forall>i \<in> set rest. get_product ?d1 (ci_product_id i) \<noteq> None"
    using Cons.prems(2) by (simp add: g)
  from Cons.IH [OF 1 2] show ?case
    by (simp only: checkout_items_Cons [OF Cons.prems(1) p])
qed

subsection \<open>What a checkout leaves behind\<close>

text \<open>A checkout that fails returns the database it was given; one that succeeds
  appends one order and one order item per cart line, takes the ordered quantities off
  the stocks and deletes the user's cart lines.\<close>

lemma checkout_failure:
  "checkout fl current_user now d = (Err e, d') \<Longrightarrow> d' = d"
  by (auto simp: checkout_def Let_def split: option.splits if_splits sum.splits)

lemma checkout_Ok:
  assumes "distinct (map p_id (products d))" and "checkout fl (Some u) now d = (Ok, d')"
  shows "\<exists>totals new.
     cart_of d (u_id u) \<noteq> [] \<and>
     line_totals fl d (cart_of d (u_id u)) = Inr totals \<and>
     orders d' = orders d @
       [\<lparr>o_id = next_id (map o_id (orders d)), o_user_id = u_id u,
         o_total_amount = py_sum fl totals, o_status = ''pending'', o_created_at = now\<rparr>] \<and>
     order_items d' = order_items d @ new \<and>
     list_all2 (\<lambda>i oi. oi_order_id oi = next_id (map o_id (orders d)) \<and>
                  oi_product_id oi = ci_product_id i \<and> oi_quantity oi = ci_quantity i \<and>
                  (\<exists>p. get_product d (ci_product_id i) = Some p \<and> oi_price oi = p_price p))
       (cart_of d (u_id u)) new \<and>
     (distinct (map oi_id (order_items d)) \<longrightarrow> distinct (map oi_id (order_items d'))) \<and>
     products d' =
       map (\<lambda>p. p\<lparr>p_stock := p_stock p - ordered_quantity (cart_of d (u_id u)) (p_id p)\<rparr>)
         (products d) \<and>
     stock_writes_fit (products d) (products d') \<and>
     cart_items d' = filter (\<lambda>i. ci_user_id i \<noteq> u_id u) (cart_items d)"
proof -
  let ?cart = "cart_of d (u_id u)"
  let ?oid = "next_id (map o_id (orders d))"
  from assms(2) have ne: "?cart \<noteq> []"
    by (auto simp: checkout_def Let_def split: if_splits)
  from assms(2) ne obtain totals where t: "line_totals fl d ?cart = Inr totals"
    by (auto simp: checkout_def Let_def split: sum.splits)
  let ?order = "\<lparr>o_id = ?oid, o_user_id = u_id u, o_total_amount = py_sum fl totals,
         o_status = ''pending'', o_created_at = now\<rparr>"
  let ?d0 = "d\<lparr>orders := orders d @ [?order]\<rparr>"
  from assms(2) ne t obtain d2 where
    l: "checkout_items ?oid ?cart ?d0 = Inr d2" and
    w: "stock_writes_fit (products d) (products d2)" and
    r: "d' = d2\<lparr>cart_items := filter (\<lambda>i. ci_user_id i \<noteq> u_id u) (cart_items d2)\<rparr>"
    by (auto simp: checkout_def Let_def split: sum.splits if_splits)
  have p0: "distinct (map p_id (products ?d0))" using assms(1) by simp
  have g: "get_product ?d0 k = get_product d k" for k by (simp add: get_product_def)
  from checkout_items_new [OF p0 l] obtain new where
    n: "order_items d2 = order_items d @ new" and
    a: "list_all2 (\<lambda>i oi. oi_order_id oi = ?oid \<and>
                  oi_product_id oi = ci_product_id i \<and> oi_quantity oi = ci_quantity i \<and>
                  (\<exists>p. get_product d (ci_product_id i) = Some p \<and> oi_price oi = p_price p))
       ?cart new"
    by (auto simp: g)
  have "distinct (map oi_id (order_items d)) \<longrightarrow> distinct (map oi_id (order_items d2))"
    using checkout_items_ids [OF _ l] by simp
  moreover have "products d2 =
       map (\<lambda>p. p\<lparr>p_stock := p_stock p - ordered_quantity ?cart (p_id p)\<rparr>) (products d)"
    using checkout_items_products [OF p0 l] by simp
  moreover have "orders d2 = orders d @ [?order] \<and> cart_items d2 = cart_items d"
    using checkout_items_frame [OF l] by simp
  ultimately show ?thesis using ne t n a r w by simp
qed

lemma checkout_cart_items:
  "checkout fl (Some u) now d = (Ok, d') \<Longrightarrow>
   cart_items d' = filter (\<lambda>i. ci_user_id i \<noteq> u_id u) (cart_items d)"
  by (auto simp: checkout_def Let_def split: if_splits sum.splits dest!: checkout_items_frame)

text \<open>Checkout succeeds on a cart that is not empty when the products of its lines
  exist and the new stocks are 64-bit integers.\<close>

lemma checkout_defined:
  assumes "distinct (map p_id (products d))" and "cart_of d (u_id u) \<noteq> []"
    and "\<forall>i \<in> set (cart_of d (u_id u)). get_product d (ci_product_id i) \<noteq> None"
    and "\<forall>p \<in> set (products d).
           fits_int64 (p_stock p - ordered_quantity (cart_of d (u_id u)) (p_id p))"
  shows "fst (checkout fl (Some u) now d) = Ok"
proof -
  let ?cart = "cart_of d (u_id u)"
  from line_totals_defined [OF assms(3)] obtain totals where
    t: "line_totals fl d ?cart = Inr totals" by blast
  let ?d0 = "d\<lparr>orders := orders d @
       [\<lparr>o_id = next_id (map o_id (orders d)), o_user_id = u_id u,
         o_total_amount = py_sum fl totals, o_status = ''pending'', o_created_at = now\<rparr>]\<rparr>"
  have p0: "distinct (map p_id (products ?d0))" using assms(1) by simp
  moreover have "\<forall>i \<in> set ?cart. get_product ?d0 (ci_product_id i) \<noteq> None"
    using assms(3) by (simp add: get_product_def)
  ultimately obtain d2 where
    l: "checkout_items (next_id (map o_id (orders d))) ?cart ?d0 = Inr d2"
    using checkout_items_defined by blast
  have "products d2 =
       map (\<lambda>p. p\<lparr>p_stock := p_stock p - ordered_quantity ?cart (p_id p)\<rparr>) (products d)"
    using checkout_items_products [OF p0 l] by simp
  then have "stock_writes_fit (products d) (products d2)"
    using assms(4) by (simp add: stock_writes_fit_def list_all2_map2 list_all2_same)
  with t l assms(2) show ?thesis by (simp add: checkout_def Let_def)
qed


subsection \<open>The example databases\<close>

text \<open>The example shop, the database after alice's checkout and the cart at the end
  of the 64-bit range, row by row.\<close>

lemma shop_eq:
  "shop = \<lparr>products =
       [\<lparr>p_id = 1, p_name = ''Headphones'', p_description = ''Wireless'', p_price = 10,
          p_stock = 1, p_image_url = '''', p_created_at = 100\<rparr>,
        \<lparr>p_id = 2, p_name = ''Tablet'', p_description = ''10-inch tablet with stylus'',
          p_price = 449.5, p_stock = 20, p_image_url = '''', p_created_at = 101\<rparr>],
     cart_items =
       [\<lparr>ci_id = 1, ci_user_id = 2, ci_product_id = 1, ci_quantity = 2\<rparr>,
        \<lparr>ci_id = 2, ci_user_id = 3, ci_product_id = 2, ci_quantity = 1\<rparr>,
        \<lparr>ci_id = 3, ci_user_id = 2, ci_product_id = 2, ci_quantity = 1\<rparr>],
     orders = [], order_items = []\<rparr>"
  by (simp add: shop_def shop_requests_def empty_db_def admin_add_product_def admin_required_def
      add_to_cart_def get_product_def next_id_def admin_def alice_def bob_def headphones_def
      tablet_def fits_int64_def)

lemma checkout_shop:
  "checkout exact (Some alice) 200 shop =
     (Ok, \<lparr>products =
       [\<lparr>p_id = 1, p_name = ''Headphones'', p_description = ''Wireless'', p_price = 10,
          p_stock = - 1, p_image_url = '''', p_created_at = 100\<rparr>,
        \<lparr>p_id = 2, p_name = ''Tablet'', p_description = ''10-inch tablet with stylus'',
          p_price = 449.5, p_stock = 19, p_image_url = '''', p_created_at = 101\<rparr>],
     cart_items =
       [\<lparr>ci_id = 2, ci_user_id = 3, ci_product_id = 2, ci_quantity = 1\<rparr>],
     orders =
       [\<lparr>o_id = 1, o_user_id = 2, o_total_amount = 469.5, o_status = ''pending'',
          o_created_at = 200\<rparr>],
     order_items =
       [\<lparr>oi_id = 1, oi_order_id = 1, oi_product_id = 1, oi_quantity = 2, oi_price = 10\<rparr>,
        \<lparr>oi_id = 2, oi_order_id = 1, oi_product_id = 2, oi_quantity = 1, oi_price = 449.5\<rparr>]\<rparr>)"
  by (simp add: shop_eq checkout_def cart_of_def get_product_def next_id_def alice_def
      exact_def stock_writes_fit_def fits_int64_def)

lemma sold_eq:
  "sold = \<lparr>products =
       [\<lparr>p_id = 1, p_name = ''Headphones'', p_description = ''Wireless'', p_price = 10,
          p_stock = - 1, p_image_url = '''', p_created_at = 100\<rparr>,
        \<lparr>p_id = 2, p_name = ''Tablet'', p_description = ''10-inch tablet with stylus'',
          p_price = 449.5, p_stock = 19, p_image_url = '''', p_created_at = 101\<rparr>],
     cart_items =
       [\<lparr>ci_id = 2, ci_user_id = 3, ci_product_id = 2, ci_quantity = 1\<rparr>],
     orders =
       [\<lparr>o_id = 1, o_user_id = 2, o_total_amount = 469.5, o_status = ''pending'',
          o_created_at = 200\<rparr>],
     order_items =
       [\<lparr>oi_id = 1, oi_order_id = 1, oi_product_id = 1, oi_quantity = 2, oi_price = 10\<rparr>,
        \<lparr>oi_id = 2, oi_order_id = 1, oi_product_id = 2, oi_quantity = 1, oi_price = 449.5\<rparr>]\<rparr>"
  by (simp add: sold_def checkout_shop)

lemma wf_db_shop: "wf_db shop"
  by (simp add: shop_eq wf_db_def primary_keys_def cart_unique_def items_belong_def)

lemma checkout_shop_sold: "checkout exact (Some alice) 200 shop = (Ok, sold)"
  by (simp add: sold_eq checkout_shop)

lemma full_eq:
  "full = \<lparr>products =
       [\<lparr>p_id = 1, p_name = ''Headphones'', p_description = ''Wireless'', p_price = 10,
          p_stock = 1, p_image_url = '''', p_created_at = 100\<rparr>],
     cart_items =
       [\<lparr>ci_id = 1, ci_user_id = 2, ci_product_id = 1, ci_quantity = 9223372036854775807\<rparr>],
     orders = [], order_items = []\<rparr>"
  by (simp add: full_def full_requests_def empty_db_def admin_add_product_def admin_required_def
      add_to_cart_def update_cart_def get_product_def get_cart_item_def next_id_def admin_def
      alice_def headphones_def fits_int64_def)


subsection \<open>Integrity is kept by every request\<close>

lemma wf_db_cart_only:
  assumes "wf_db d" and "distinct (map ci_id xs)"
    and "distinct (map (\<lambda>i. (ci_user_id i, ci_product_id i)) xs)"
  shows "wf_db (d\<lparr>cart_items := xs\<rparr>)"
  using assms by (simp add: wf_db_def primary_keys_def cart_unique_def items_belong_def)

lemma wf_db_add_to_cart: "wf_db d \<Longrightarrow> wf_db (snd (add_to_cart cu product_id d))"
proof (cases cu)
  case None
  assume "wf_db d"
  with None show ?thesis by (simp add: add_to_cart_def)
next
  case (Some u)
  assume wf: "wf_db d"
  then have i: "distinct (map ci_id (cart_items d))"
    and c: "distinct (map (\<lambda>i. (ci_user_id i, ci_product_id i)) (cart_items d))"
    by (simp_all add: wf_db_def primary_keys_def cart_unique_def)
  show ?thesis
  proof (cases "get_product d product_id")
    case None
    with Some wf show ?thesis by (simp add: add_to_cart_def)
  next
    case p: (Some product)
    show ?thesis
    proof (cases "find (\<lambda>i. ci_user_id i = u_id u \<and> ci_product_id i = product_id) (cart_items d)")
      case None
      then have "(u_id u, product_id) \<notin> set (map (\<lambda>i. (ci_user_id i, ci_product_id i)) (cart_items d))"
        by (auto simp: find_None_iff)
      with i c next_id_fresh [of "map ci_id (cart_items d)"]
      have "wf_db (d\<lparr>cart_items := cart_items d @
                       [\<lparr>ci_id = next_id (map ci_id (cart_items d)),
                         ci_user_id = u_id u,
                         ci_product_id = product_id,
                         ci_quantity = 1\<rparr>]\<rparr>)"
        by (intro wf_db_cart_only [OF wf]) simp_all
      with None p Some show ?thesis by (simp add: add_to_cart_def)
    next
      case f: (Some line)
      let ?g = "\<lambda>i. if ci_id i = ci_id line then i\<lparr>ci_quantity := ci_quantity line + 1\<rparr> else i"
      have "distinct (map ci_id (map ?g (cart_items d)))"
        using i by (subst map_key_same) simp_all
      moreover have "distinct (map (\<lambda>i. (ci_user_id i, ci_product_id i)) (map ?g (cart_items d)))"
        using c by (subst map_key_same) simp_all
      ultimately have "wf_db (d\<lparr>cart_items := map ?g (cart_items d)\<rparr>)"
        by (rule wf_db_cart_only [OF wf])
      with f p Some wf show ?thesis by (simp add: add_to_cart_def)
    qed
  qed
qed

lemma wf_db_update_cart: "wf_db d \<Longrightarrow> wf_db (snd (update_cart cu item_id quantity d))"
proof -
  assume wf: "wf_db d"
  then have i: "distinct (map ci_id (cart_items d))"
    and c: "distinct (map (\<lambda>i. (ci_user_id i, ci_product_id i)) (cart_items d))"
    by (simp_all add: wf_db_def primary_keys_def cart_unique_def)
  have 1: "wf_db (d\<lparr>cart_items := filter (\<lambda>i. ci_id i \<noteq> k) (cart_items d)\<rparr>)" for k
    using i c by (intro wf_db_cart_only [OF wf] distinct_map_filter)
  have 2: "wf_db (d\<lparr>cart_items :=
      map (\<lambda>i. if ci_id i = k then i\<lparr>ci_quantity := quantity\<rparr> else i) (cart_items d)\<rparr>)" for k
  proof (rule wf_db_cart_only [OF wf])
    show "distinct (map ci_id
        (map (\<lambda>i. if ci_id i = k then i\<lparr>ci_quantity := quantity\<rparr> else i) (cart_items d)))"
      using i by (subst map_key_same) simp_all
    show "distinct (map (\<lambda>i. (ci_user_id i, ci_product_id i))
        (map (\<lambda>i. if ci_id i = k then i\<lparr>ci_quantity := quantity\<rparr> else i) (cart_items d)))"
      using c by (subst map_key_same) simp_all
  qed
  show ?thesis
    using wf 1 2 by (simp add: update_cart_def split: option.splits)
qed

lemma wf_db_remove_from_cart: "wf_db d \<Longrightarrow> wf_db (snd (remove_from_cart cu item_id d))"
proof -
  assume wf: "wf_db d"
  then have i: "distinct (map ci_id (cart_items d))"
    and c: "distinct (map (\<lambda>i. (ci_user_id i, ci_product_id i)) (cart_items d))"
    by (simp_all add: wf_db_def primary_keys_def cart_unique_def)
  have 1: "wf_db (d\<lparr>cart_items := filter (\<lambda>i. ci_id i \<noteq> k) (cart_items d)\<rparr>)" for k
    using i c by (intro wf_db_cart_only [OF wf] distinct_map_filter)
  show ?thesis
    using wf 1 by (simp add: remove_from_cart_def split: option.splits)
qed

lemma wf_db_checkout: "wf_db d \<Longrightarrow> wf_db (snd (checkout fl cu now d))"
proof -
  assume wf: "wf_db d"
  obtain r d' where c: "checkout fl cu now d = (r, d')" by (cases "checkout fl cu now d")
  show ?thesis
  proof (cases r)
    case (Err e)
    with c wf checkout_failure [of fl cu now d e d'] show ?thesis by simp
  next
    case Ok
    with c obtain u where u: "cu = Some u"
      by (cases cu) (auto simp: checkout_def)
    from wf have pk: "distinct (map p_id (products d))"
      and ik: "distinct (map ci_id (cart_items d))"
      and ok: "distinct (map o_id (orders d))"
      and oik: "distinct (map oi_id (order_items d))"
      and cu: "distinct (map (\<lambda>i. (ci_user_id i, ci_product_id i)) (cart_items d))"
      and ib: "\<forall>oi \<in> set (order_items d). oi_order_id oi \<in> set (map o_id (orders d))"
      by (simp_all add: wf_db_def primary_keys_def cart_unique_def items_belong_def)
    let ?oid = "next_id (map o_id (orders d))"
    from checkout_Ok [OF pk] c Ok u obtain total new where
      o: "orders d' = orders d @
       [\<lparr>o_id = ?oid, o_user_id = u_id u, o_total_amount = py_sum fl total,
         o_status = ''pending'', o_created_at = now\<rparr>]" and
      n: "order_items d' = order_items d @ new" and
      a: "list_all2 (\<lambda>i oi. oi_order_id oi = ?oid \<and>
                  oi_product_id oi = ci_product_id i \<and> oi_quantity oi = ci_quantity i \<and>
                  (\<exists>p. get_product d (ci_product_id i) = Some p \<and> oi_price oi = p_price p))
       (cart_of d (u_id u)) new" and
      di: "distinct (map oi_id (order_items d)) \<longrightarrow> distinct (map oi_id (order_items d'))" and
      p: "products d' =
       map (\<lambda>p. p\<lparr>p_stock := p_stock p - ordered_quantity (cart_of d (u_id u)) (p_id p)\<rparr>)
         (products d)" and
      ci: "cart_items d' = filter (\<lambda>i. ci_user_id i \<noteq> u_id u) (cart_items d)"
      by blast
    have "map p_id (products d') = map p_id (products d)"
      unfolding p by (rule map_key_same) simp
    then have 1: "distinct (map p_id (products d'))" using pk by simp
    have 2: "distinct (map ci_id (cart_items d'))"
      unfolding ci using ik by (rule distinct_map_filter)
    have 3: "distinct (map o_id (orders d'))"
      using ok next_id_fresh [of "map o_id (orders d)"] by (simp add: o)
    have 4: "distinct (map oi_id (order_items d'))" using di oik by simp
    have 5: "distinct (map (\<lambda>i. (ci_user_id i, ci_product_id i)) (cart_items d'))"
      unfolding ci using cu by (rule distinct_map_filter)
    have "\<forall>oi \<in> set new. oi_order_id oi = ?oid"
      using a by (auto simp: list_all2_conv_all_nth in_set_conv_nth)
    then have 6: "\<forall>oi \<in> set (order_items d'). oi_order_id oi \<in> set (map o_id (orders d'))"
      using ib by (auto simp: n o)
    from 1 2 3 4 5 6 have "wf_db d'"
      by (simp add: wf_db_def primary_keys_def cart_unique_def items_belong_def)
    with c show ?thesis by simp
  qed
qed

lemma wf_db_admin_add_product: "wf_db d \<Longrightarrow> wf_db (snd (admin_add_product cu form now d))"
  using next_id_fresh [of "map p_id (products d)"]
  by (simp add: admin_add_product_def wf_db_def primary_keys_def cart_unique_def items_belong_def
      split: option.splits)

lemma wf_db_admin_edit_product:
  "wf_db d \<Longrightarrow> wf_db (snd (admin_edit_product cu product_id req d))"
proof -
  assume wf: "wf_db d"
  have "wf_db (d\<lparr>products := map (\<lambda>p. if p_id p = k then f p else p) (products d)\<rparr>)"
    if "\<And>p. p_id (f p) = p_id p" for k f
  proof -
    have "p_id \<circ> (\<lambda>p. if p_id p = k then f p else p) = p_id"
      by (rule ext) (simp add: that)
    with wf show ?thesis
      by (simp add: wf_db_def primary_keys_def cart_unique_def items_belong_def)
  qed
  then show ?thesis
    using wf by (simp add: admin_edit_product_def split: option.splits)
qed

lemma wf_db_admin_update_order_status:
  "wf_db d \<Longrightarrow> wf_db (snd (admin_update_order_status cu order_id status d))"
proof -
  assume wf: "wf_db d"
  have "wf_db (d\<lparr>orders := map (\<lambda>r. if o_id r = k then r\<lparr>o_status := status\<rparr> else r) (orders d)\<rparr>)" for k
  proof -
    have "map o_id (map (\<lambda>r. if o_id r = k then r\<lparr>o_status := status\<rparr> else r) (orders d)) =
        map o_id (orders d)"
      by (rule map_key_same) simp
    then show ?thesis
      using wf
      by (simp add: wf_db_def primary_keys_def cart_unique_def items_belong_def del: map_map)
  qed
  then show ?thesis
    using wf by (simp add: admin_update_order_status_def split: option.splits)
qed

lemma wf_db_handle: "wf_db d \<Longrightarrow> wf_db (snd (handle fl r d))"
  by (cases r)
    (simp_all add: wf_db_add_to_cart wf_db_update_cart wf_db_remove_from_cart wf_db_checkout
      wf_db_admin_add_product wf_db_admin_edit_product wf_db_admin_update_order_status)

lemma wf_db_run: "wf_db d \<Longrightarrow> wf_db (run fl reqs d)"
  by (induction reqs arbitrary: d) (simp_all add: wf_db_handle)

lemma wf_db_empty: "wf_db empty_db"
  by (simp add: wf_db_def primary_keys_def cart_unique_def items_belong_def empty_db_def)

subsection \<open>Adding to the cart\<close>

text \<open>
  C5 claims that \<open>add\<close> on an existing line adds exactly 1 to its quantity. The
  quantity is a 64-bit column: in the database \<open>full\<close>, reached from the empty
  database by the requests of \<open>full_requests\<close>, alice's line holds the largest 64-bit
  integer, and her next \<open>add_to_cart\<close> ends with \<open>OverflowError\<close> and leaves the
  line as it was.
\<close>

theorem add_to_cart_at_limit:
  "full = run exact full_requests empty_db \<and>
   get_product full 1 \<noteq> None \<and>
   map ci_quantity (lines_of full (u_id alice) 1) = [9223372036854775807] \<and>
   add_to_cart (Some alice) 1 full = (Err OverflowError, full)"
  by (simp add: full_def [symmetric])
    (simp add: full_eq add_to_cart_def get_product_def lines_of_def alice_def fits_int64_def)

text \<open>
  C5, amended. For a user and a product id, in a database with distinct cart line ids
  and at most one line per (user, product): if the product exists and the user has a
  line for it, \<open>add_to_cart\<close> adds exactly 1 to that line's quantity and changes
  nothing else when the new quantity is a 64-bit integer, and otherwise ends with
  \<open>OverflowError\<close> and returns the database it was given; if the product exists and
  the user has no line for it, it appends a new line with quantity 1 under a fresh id;
  if no product has the id, it returns the database it was given, with \<open>NotFound\<close>
  for an id in the 64-bit range and \<open>OverflowError\<close> for an id beyond it. The stock is
  never read: with any other stock values in the product table the outcome and the cart
  are the same.
\<close>

theorem add_to_cart_cases:
  assumes "distinct (map ci_id (cart_items d))" and "cart_unique d"
  shows
    "(\<forall>line. get_product d product_id \<noteq> None \<and> line \<in> set (lines_of d (u_id u) product_id) \<longrightarrow>
        add_to_cart (Some u) product_id d =
          (if fits_int64 (ci_quantity line + 1)
           then (Ok, d\<lparr>cart_items :=
                 map (\<lambda>i. if i = line then line\<lparr>ci_quantity := ci_quantity line + 1\<rparr> else i)
                   (cart_items d)\<rparr>)
           else (Err OverflowError, d))) \<and>
     (get_product d product_id \<noteq> None \<and> lines_of d (u_id u) product_id = [] \<longrightarrow>
        next_id (map ci_id (cart_items d)) \<notin> set (map ci_id (cart_items d)) \<and>
        add_to_cart (Some u) product_id d =
          (Ok, d\<lparr>cart_items := cart_items d @
                 [\<lparr>ci_id = next_id (map ci_id (cart_items d)), ci_user_id = u_id u,
                   ci_product_id = product_id, ci_quantity = 1\<rparr>]\<rparr>)) \<and>
     (get_product d product_id = None \<longrightarrow>
        add_to_cart (Some u) product_id d =
          (Err (if fits_int64 product_id then NotFound else OverflowError), d)) \<and>
     (\<forall>s. add_to_cart (Some u) product_id
            (d\<lparr>products := map (\<lambda>p. p\<lparr>p_stock := s p\<rparr>) (products d)\<rparr>) =
          (fst (add_to_cart (Some u) product_id d),
           (snd (add_to_cart (Some u) product_id d))
             \<lparr>products := map (\<lambda>p. p\<lparr>p_stock := s p\<rparr>) (products d)\<rparr>))"
proof (intro conjI allI impI)
  fix line
  assume h: "get_product d product_id \<noteq> None \<and> line \<in> set (lines_of d (u_id u) product_id)"
  then have single: "lines_of d (u_id u) product_id = [line]"
    using assms(2) by (simp add: lines_of_single [of d line])
  have mem: "line \<in> set (cart_items d)" using h by (auto simp: lines_of_def)
  have f: "find (\<lambda>i. ci_user_id i = u_id u \<and> ci_product_id i = product_id) (cart_items d) = Some line"
    using single by (simp add: find_eq_filter [of _ "cart_items d"] lines_of_def)
  have "map (\<lambda>i. if ci_id i = ci_id line then i\<lparr>ci_quantity := ci_quantity line + 1\<rparr> else i)
          (cart_items d) =
        map (\<lambda>i. if i = line then line\<lparr>ci_quantity := ci_quantity line + 1\<rparr> else i) (cart_items d)"
    using assms(1) mem by (rule map_key)
  with h f show "add_to_cart (Some u) product_id d =
          (if fits_int64 (ci_quantity line + 1)
           then (Ok, d\<lparr>cart_items :=
                 map (\<lambda>i. if i = line then line\<lparr>ci_quantity := ci_quantity line + 1\<rparr> else i)
                   (cart_items d)\<rparr>)
           else (Err OverflowError, d))"
    by (auto simp: add_to_cart_def)
next
  assume h: "get_product d product_id \<noteq> None \<and> lines_of d (u_id u) product_id = []"
  show "next_id (map ci_id (cart_items d)) \<notin> set (map ci_id (cart_items d))"
    by (rule next_id_fresh)
  have f: "find (\<lambda>i. ci_user_id i = u_id u \<and> ci_product_id i = product_id) (cart_items d) = None"
    using h by (simp add: find_eq_filter [of _ "cart_items d"] lines_of_def)
  with h show "add_to_cart (Some u) product_id d =
          (Ok, d\<lparr>cart_items := cart_items d @
                 [\<lparr>ci_id = next_id (map ci_id (cart_items d)), ci_user_id = u_id u,
                   ci_product_id = product_id, ci_quantity = 1\<rparr>]\<rparr>)"
    by (auto simp: add_to_cart_def)
next
  assume "get_product d product_id = None"
  then show "add_to_cart (Some u) product_id d =
          (Err (if fits_int64 product_id then NotFound else OverflowError), d)"
    by (simp add: add_to_cart_def no_row_def)
next
  fix s
  show "add_to_cart (Some u) product_id
            (d\<lparr>products := map (\<lambda>p. p\<lparr>p_stock := s p\<rparr>) (products d)\<rparr>) =
          (fst (add_to_cart (Some u) product_id d),
           (snd (add_to_cart (Some u) product_id d))
             \<lparr>products := map (\<lambda>p. p\<lparr>p_stock := s p\<rparr>) (products d)\<rparr>)"
    by (simp add: add_to_cart_def get_product_restock split: option.splits)
qed

theorem add_to_cart_cases_witness:
  "map ci_quantity (cart_items (snd (add_to_cart (Some alice) 1 shop))) = [3, 1, 1] \<and>
   map p_stock (products (snd (add_to_cart (Some alice) 1 shop))) = [1, 20] \<and>
   cart_items (snd (add_to_cart (Some bob) 1 shop)) = cart_items shop @
     [\<lparr>ci_id = 4, ci_user_id = 3, ci_product_id = 1, ci_quantity = 1\<rparr>] \<and>
   add_to_cart (Some alice) 9 shop = (Err NotFound, shop) \<and>
   add_to_cart (Some alice) 9223372036854775808 shop = (Err OverflowError, shop)"
proof -
  let ?line = "\<lparr>ci_id = 1, ci_user_id = 2, ci_product_id = 1, ci_quantity = 2\<rparr>"
  have 1: "distinct (map ci_id (cart_items shop))" by (simp add: shop_eq)
  have 2: "cart_unique shop" by (simp add: shop_eq cart_unique_def)
  have a: "get_product shop 1 \<noteq> None \<and> ?line \<in> set (lines_of shop (u_id alice) 1)"
    by (simp add: shop_eq get_product_def lines_of_def alice_def)
  have b: "get_product shop 1 \<noteq> None \<and> lines_of shop (u_id bob) 1 = []"
    by (simp add: shop_eq get_product_def lines_of_def bob_def)
  have c: "get_product shop 9 = None"
    by (simp add: shop_eq get_product_def)
  have n: "next_id (map ci_id (cart_items shop)) = 4"
    by (simp add: shop_eq next_id_def)
  have "add_to_cart (Some alice) 1 shop =
      (if fits_int64 (ci_quantity ?line + 1)
       then (Ok, shop\<lparr>cart_items :=
         map (\<lambda>i. if i = ?line then ?line\<lparr>ci_quantity := ci_quantity ?line + 1\<rparr> else i)
           (cart_items shop)\<rparr>)
       else (Err OverflowError, shop))"
    using add_to_cart_cases [OF 1 2, of 1 alice] a by blast
  then have A: "add_to_cart (Some alice) 1 shop =
      (Ok, shop\<lparr>cart_items :=
         map (\<lambda>i. if i = ?line then ?line\<lparr>ci_quantity := ci_quantity ?line + 1\<rparr> else i)
           (cart_items shop)\<rparr>)"
    by (simp add: fits_int64_def)
  have B: "add_to_cart (Some bob) 1 shop =
      (Ok, shop\<lparr>cart_items := cart_items shop @
         [\<lparr>ci_id = next_id (map ci_id (cart_items shop)), ci_user_id = u_id bob,
           ci_product_id = 1, ci_quantity = 1\<rparr>]\<rparr>)"
    using add_to_cart_cases [OF 1 2, of 1 bob] b by blast
  have C: "add_to_cart (Some alice) 9 shop = (Err NotFound, shop)"
    using add_to_cart_cases [OF 1 2, of 9 alice] c by (simp add: fits_int64_def)
  have c': "get_product shop 9223372036854775808 = None"
    by (simp add: shop_eq get_product_def)
  have D: "add_to_cart (Some alice) 9223372036854775808 shop = (Err OverflowError, shop)"
    using add_to_cart_cases [OF 1 2, of 9223372036854775808 alice] c'
    by (simp add: fits_int64_def)
  show ?thesis
    unfolding A B C D by (simp add: n bob_def) (simp add: shop_eq)
qed

subsection \<open>Changing and removing cart lines\<close>

text \<open>
  C7. A cart line of user \<open>a\<close> is not changed by another user \<open>b\<close>: both
  \<open>update_cart\<close> and \<open>remove_from_cart\<close> on the line's id, called as \<open>b\<close>, end
  with \<open>Unauthorized\<close> and return the database they were given.
\<close>

theorem cart_line_ownership:
  assumes "line \<in> set (cart_items d)" and "distinct (map ci_id (cart_items d))"
    and "ci_user_id line = u_id a" and "u_id b \<noteq> u_id a"
  shows "update_cart (Some b) (ci_id line) quantity d = (Err Unauthorized, d) \<and>
         remove_from_cart (Some b) (ci_id line) d = (Err Unauthorized, d)"
proof -
  have "get_cart_item d (ci_id line) = Some line"
    unfolding get_cart_item_def using assms(2,1) by (rule find_key)
  with assms(3,4) show ?thesis
    by (simp add: update_cart_def remove_from_cart_def)
qed

theorem cart_line_ownership_witness:
  "update_cart (Some bob) 1 7 shop = (Err Unauthorized, shop) \<and>
   remove_from_cart (Some bob) 1 shop = (Err Unauthorized, shop)"
proof -
  let ?line = "\<lparr>ci_id = 1, ci_user_id = 2, ci_product_id = 1, ci_quantity = 2\<rparr>"
  have 1: "?line \<in> set (cart_items shop)" by (simp add: shop_eq)
  have 2: "distinct (map ci_id (cart_items shop))" by (simp add: shop_eq)
  have 3: "ci_user_id ?line = u_id alice" by (simp add: alice_def)
  have 4: "u_id bob \<noteq> u_id alice" by (simp add: alice_def bob_def)
  from cart_line_ownership [OF 1 2 3 4, of 7] show ?thesis by simp
qed

text \<open>
  C6 claims that \<open>setQuantity\<close> with a quantity of 1 or more stores exactly that
  quantity. The quantity is a 64-bit column: in the example shop, alice's
  \<open>update_cart\<close> of her own line with the quantity 2 ^ 63 ends with \<open>OverflowError\<close>
  and leaves the line, with its quantity 2, as it was.
\<close>

theorem update_cart_beyond_limit:
  "\<lparr>ci_id = 1, ci_user_id = u_id alice, ci_product_id = 1, ci_quantity = 2\<rparr>
     \<in> set (cart_items shop) \<and>
   (1::int) \<le> 9223372036854775808 \<and>
   update_cart (Some alice) 1 9223372036854775808 shop = (Err OverflowError, shop)"
  by (simp add: shop_eq update_cart_def get_cart_item_def alice_def fits_int64_def)

text \<open>
  C6, amended. On a line of the current user, \<open>update_cart\<close> with a quantity of 0 or
  less deletes the line and nothing else; with a quantity from 1 to 2 ^ 63 - 1 it stores
  exactly that quantity in the line and changes nothing else; with a larger quantity it
  ends with \<open>OverflowError\<close> and returns the database it was given. No stock is read:
  the statement holds for every stock.
\<close>

theorem update_cart_owner:
  assumes "line \<in> set (cart_items d)" and "distinct (map ci_id (cart_items d))"
    and "ci_user_id line = u_id u"
  shows "update_cart (Some u) (ci_id line) quantity d =
           (if quantity \<le> 0
            then (Ok, d\<lparr>cart_items := filter (\<lambda>i. i \<noteq> line) (cart_items d)\<rparr>)
            else if fits_int64 quantity
            then (Ok, d\<lparr>cart_items :=
                   map (\<lambda>i. if i = line then line\<lparr>ci_quantity := quantity\<rparr> else i)
                     (cart_items d)\<rparr>)
            else (Err OverflowError, d))"
proof -
  have "get_cart_item d (ci_id line) = Some line"
    unfolding get_cart_item_def using assms(2,1) by (rule find_key)
  moreover have "filter (\<lambda>i. ci_id i \<noteq> ci_id line) (cart_items d) =
      filter (\<lambda>i. i \<noteq> line) (cart_items d)"
    using assms(2,1) by (rule filter_key)
  moreover have "map (\<lambda>i. if ci_id i = ci_id line then i\<lparr>ci_quantity := quantity\<rparr> else i)
        (cart_items d) =
      map (\<lambda>i. if i = line then line\<lparr>ci_quantity := quantity\<rparr> else i) (cart_items d)"
    using assms(2,1) by (rule map_key)
  ultimately show ?thesis
    using assms(3) by (simp add: update_cart_def)
qed

theorem update_cart_owner_witness:
  "map ci_quantity (cart_items (snd (update_cart (Some alice) 1 500 shop))) = [500, 1, 1] \<and>
   map ci_id (cart_items (snd (update_cart (Some alice) 1 0 shop))) = [2, 3] \<and>
   map ci_id (cart_items (snd (update_cart (Some alice) 1 (- 4) shop))) = [2, 3] \<and>
   map ci_id (cart_items (snd (update_cart (Some alice) 1 (- 9223372036854775809) shop))) =
     [2, 3]"
proof -
  let ?line = "\<lparr>ci_id = 1, ci_user_id = 2, ci_product_id = 1, ci_quantity = 2\<rparr>"
  have 1: "?line \<in> set (cart_items shop)" by (simp add: shop_eq)
  have 2: "distinct (map ci_id (cart_items shop))" by (simp add: shop_eq)
  have 3: "ci_user_id ?line = u_id alice" by (simp add: alice_def)
  note owner = update_cart_owner [OF 1 2 3]
  show ?thesis
    using owner [of 500] owner [of 0] owner [of "- 4"] owner [of "- 9223372036854775809"]
    by (simp add: shop_eq fits_int64_def)
qed

subsection \<open>Checkout of an empty cart\<close>

text \<open>
  C3. When the current user has no cart line, checkout ends with \<open>EmptyCart\<close> and
  returns the database it was given: no order and no order item is created, no stock
  is changed, no cart line is touched.
\<close>

theorem checkout_empty_cart:
  assumes "cart_of d (u_id u) = []"
  shows "checkout fl (Some u) now d = (Err EmptyCart, d)"
  using assms by (simp add: checkout_def)

theorem checkout_empty_cart_witness:
  "cart_of shop (u_id admin) = [] \<and> checkout exact (Some admin) 200 shop = (Err EmptyCart, shop)"
proof -
  have h: "cart_of shop (u_id admin) = []"
    by (simp add: shop_eq cart_of_def admin_def)
  from checkout_empty_cart [OF h] h show ?thesis by simp
qed

subsection \<open>A successful checkout\<close>

lemma list_all2_map_eq:
  "list_all2 R xs ys \<Longrightarrow> (\<And>x y. R x y \<Longrightarrow> f x = g y) \<Longrightarrow> map f xs = map g ys"
  by (induction rule: list_all2_induct) auto

text \<open>
  C1. In a database that satisfies \<open>wf_db\<close>, a successful checkout of user \<open>u\<close>,
  whose cart then has N \<open>\<ge>\<close> 1 lines, appends exactly one order: its id is new, it
  belongs to \<open>u\<close> and its status is \<open>pending\<close>. Its total is the sum, as Python's
  \<^verbatim>\<open>sum\<close> computes it, of the products \<^verbatim>\<open>quantity * price\<close> of the cart
  lines in their order, with the price of each line's product before the call; it is
  also that sum over the order's items. The order has exactly N order items, the ones
  appended, and the k-th holds the product id and the quantity of the k-th cart line and
  the price of its product before the call. The stock of the product of each line is
  lower by exactly the line's quantity, the product is otherwise the same, and the
  user's cart is empty afterwards. The statement holds for every pair of float
  operations \<open>fl\<close>.
\<close>

theorem checkout_creates_order:
  assumes "wf_db d" and "checkout fl (Some u) now d = (Ok, d')"
  shows "\<exists>ord new_items.
     cart_of d (u_id u) \<noteq> [] \<and>
     orders d' = orders d @ [ord] \<and> o_id ord \<notin> set (map o_id (orders d)) \<and>
     o_user_id ord = u_id u \<and> o_status ord = ''pending'' \<and>
     o_total_amount ord =
       py_sum fl (map (\<lambda>i. int_times fl (ci_quantity i)
                             (p_price (the (get_product d (ci_product_id i)))))
                    (cart_of d (u_id u))) \<and>
     o_total_amount ord =
       py_sum fl (map (\<lambda>oi. int_times fl (oi_quantity oi) (oi_price oi)) new_items) \<and>
     order_items d' = order_items d @ new_items \<and>
     filter (\<lambda>oi. oi_order_id oi = o_id ord) (order_items d') = new_items \<and>
     length new_items = length (cart_of d (u_id u)) \<and>
     list_all2 (\<lambda>i oi. \<exists>p. get_product d (ci_product_id i) = Some p \<and>
                  oi_product_id oi = ci_product_id i \<and> oi_quantity oi = ci_quantity i \<and>
                  oi_price oi = p_price p)
       (cart_of d (u_id u)) new_items \<and>
     (\<forall>i \<in> set (cart_of d (u_id u)). \<exists>p.
         get_product d (ci_product_id i) = Some p \<and>
         get_product d' (ci_product_id i) = Some (p\<lparr>p_stock := p_stock p - ci_quantity i\<rparr>)) \<and>
     cart_of d' (u_id u) = []"
proof -
  let ?cart = "cart_of d (u_id u)"
  let ?oid = "next_id (map o_id (orders d))"
  let ?line_total = "\<lambda>i. int_times fl (ci_quantity i) (p_price (the (get_product d (ci_product_id i))))"
  from assms(1) have pk: "distinct (map p_id (products d))" and cu: "cart_unique d"
    and ib: "items_belong d"
    by (simp_all add: wf_db_def primary_keys_def)
  from checkout_Ok [OF pk assms(2)] obtain totals new where
    ne: "?cart \<noteq> []" and
    t: "line_totals fl d ?cart = Inr totals" and
    o: "orders d' = orders d @
       [\<lparr>o_id = ?oid, o_user_id = u_id u, o_total_amount = py_sum fl totals,
         o_status = ''pending'', o_created_at = now\<rparr>]" and
    n: "order_items d' = order_items d @ new" and
    a: "list_all2 (\<lambda>i oi. oi_order_id oi = ?oid \<and>
                  oi_product_id oi = ci_product_id i \<and> oi_quantity oi = ci_quantity i \<and>
                  (\<exists>p. get_product d (ci_product_id i) = Some p \<and> oi_price oi = p_price p))
       ?cart new" and
    p: "products d' =
       map (\<lambda>p. p\<lparr>p_stock := p_stock p - ordered_quantity ?cart (p_id p)\<rparr>) (products d)" and
    c: "cart_items d' = filter (\<lambda>i. ci_user_id i \<noteq> u_id u) (cart_items d)"
    by blast
  let ?ord = "\<lparr>o_id = ?oid, o_user_id = u_id u, o_total_amount = py_sum fl totals,
         o_status = ''pending'', o_created_at = now\<rparr>"
  have fresh: "?oid \<notin> set (map o_id (orders d))" by (rule next_id_fresh)
  have tot: "totals = map ?line_total ?cart"
    and ex: "\<forall>i \<in> set ?cart. get_product d (ci_product_id i) \<noteq> None"
    using line_totals_Inr [OF t] by simp_all
  have "map ?line_total ?cart = map (\<lambda>oi. int_times fl (oi_quantity oi) (oi_price oi)) new"
    using a by (rule list_all2_map_eq) auto
  with tot have tot': "totals = map (\<lambda>oi. int_times fl (oi_quantity oi) (oi_price oi)) new"
    by simp
  have "oi_order_id oi \<noteq> ?oid" if "oi \<in> set (order_items d)" for oi
  proof
    assume "oi_order_id oi = ?oid"
    moreover from ib that have "oi_order_id oi \<in> set (map o_id (orders d))"
      unfolding items_belong_def by blast
    ultimately show False using fresh by simp
  qed
  then have old: "filter (\<lambda>oi. oi_order_id oi = ?oid) (order_items d) = []"
    by (simp add: filter_empty_conv)
  have "\<forall>oi \<in> set new. oi_order_id oi = ?oid"
    using a by (auto simp: list_all2_conv_all_nth in_set_conv_nth)
  then have new: "filter (\<lambda>oi. oi_order_id oi = ?oid) new = new"
    by simp
  have len: "length new = length ?cart"
    using a by (simp add: list_all2_lengthD)
  have a': "list_all2 (\<lambda>i oi. \<exists>p. get_product d (ci_product_id i) = Some p \<and>
                  oi_product_id oi = ci_product_id i \<and> oi_quantity oi = ci_quantity i \<and>
                  oi_price oi = p_price p) ?cart new"
    using a by (rule list_all2_mono) auto
  have st: "\<exists>p. get_product d (ci_product_id i) = Some p \<and>
         get_product d' (ci_product_id i) = Some (p\<lparr>p_stock := p_stock p - ci_quantity i\<rparr>)"
    if i: "i \<in> set ?cart" for i
  proof -
    from ex i obtain q where q: "get_product d (ci_product_id i) = Some q" by auto
    then have "p_id q = ci_product_id i" by (simp add: get_product_Some)
    moreover have "ordered_quantity ?cart (ci_product_id i) = ci_quantity i"
      using cu i by (rule ordered_quantity_line)
    ultimately show ?thesis
      using q get_product_restocked [OF p, of "ci_product_id i"] by simp
  qed
  have empty: "cart_of d' (u_id u) = []"
    by (simp add: cart_of_def c filter_empty_conv)
  have 1: "o_total_amount ?ord = py_sum fl (map ?line_total ?cart)" using tot by simp
  have 2: "o_total_amount ?ord =
      py_sum fl (map (\<lambda>oi. int_times fl (oi_quantity oi) (oi_price oi)) new)"
    using tot' by simp
  show ?thesis
    apply (rule exI [of _ ?ord])
    apply (rule exI [of _ new])
    using ne o fresh 1 2 n old new len a' st empty
    apply simp
    done
qed

theorem checkout_creates_order_witness:
  "wf_db shop \<and> checkout exact (Some alice) 200 shop = (Ok, sold) \<and>
   (\<exists>ord new_items.
     cart_of shop (u_id alice) \<noteq> [] \<and>
     orders sold = orders shop @ [ord] \<and> o_id ord \<notin> set (map o_id (orders shop)) \<and>
     o_user_id ord = u_id alice \<and> o_status ord = ''pending'' \<and>
     o_total_amount ord =
       py_sum exact (map (\<lambda>i. int_times exact (ci_quantity i)
                             (p_price (the (get_product shop (ci_product_id i)))))
                    (cart_of shop (u_id alice))) \<and>
     o_total_amount ord =
       py_sum exact (map (\<lambda>oi. int_times exact (oi_quantity oi) (oi_price oi)) new_items) \<and>
     order_items sold = order_items shop @ new_items \<and>
     filter (\<lambda>oi. oi_order_id oi = o_id ord) (order_items sold) = new_items \<and>
     length new_items = length (cart_of shop (u_id alice)) \<and>
     list_all2 (\<lambda>i oi. \<exists>p. get_product shop (ci_product_id i) = Some p \<and>
                  oi_product_id oi = ci_product_id i \<and> oi_quantity oi = ci_quantity i \<and>
                  oi_price oi = p_price p)
       (cart_of shop (u_id alice)) new_items \<and>
     (\<forall>i \<in> set (cart_of shop (u_id alice)). \<exists>p.
         get_product shop (ci_product_id i) = Some p \<and>
         get_product sold (ci_product_id i) = Some (p\<lparr>p_stock := p_stock p - ci_quantity i\<rparr>)) \<and>
     cart_of sold (u_id alice) = [])"
  using wf_db_shop checkout_shop_sold checkout_creates_order [OF wf_db_shop checkout_shop_sold]
  by (intro conjI)

text \<open>
  C10. A successful checkout changes no field of a product but the stock, changes no
  product at all unless a cart line of the user refers to it, and leaves the cart of
  every other user as it was.
\<close>

theorem checkout_frame:
  assumes "distinct (map p_id (products d))" and "checkout fl (Some u) now d = (Ok, d')"
  shows "list_all2 (\<lambda>p p'. p_id p' = p_id p \<and> p_name p' = p_name p \<and>
                     p_description p' = p_description p \<and> p_price p' = p_price p \<and>
                     p_image_url p' = p_image_url p \<and> p_created_at p' = p_created_at p \<and>
                     (p_id p \<notin> ci_product_id ` set (cart_of d (u_id u)) \<longrightarrow> p' = p))
           (products d) (products d') \<and>
         (\<forall>v. v \<noteq> u_id u \<longrightarrow> cart_of d' v = cart_of d v)"
proof -
  let ?cart = "cart_of d (u_id u)"
  from checkout_Ok [OF assms] have
    p: "products d' =
       map (\<lambda>p. p\<lparr>p_stock := p_stock p - ordered_quantity ?cart (p_id p)\<rparr>) (products d)" and
    c: "cart_items d' = filter (\<lambda>i. ci_user_id i \<noteq> u_id u) (cart_items d)"
    by blast+
  have "cart_of d' v = cart_of d v" if "v \<noteq> u_id u" for v
    unfolding cart_of_def c filter_filter using that by (intro filter_cong) auto
  moreover have "list_all2 (\<lambda>p p'. p_id p' = p_id p \<and> p_name p' = p_name p \<and>
                     p_description p' = p_description p \<and> p_price p' = p_price p \<and>
                     p_image_url p' = p_image_url p \<and> p_created_at p' = p_created_at p \<and>
                     (p_id p \<notin> ci_product_id ` set ?cart \<longrightarrow> p' = p))
           (products d) (products d')"
    unfolding p by (simp add: list_all2_map2 list_all2_same ordered_quantity_none)
  ultimately show ?thesis by simp
qed

theorem checkout_frame_witness:
  "distinct (map p_id (products shop)) \<and> checkout exact (Some bob) 300 shop =
     (Ok, snd (checkout exact (Some bob) 300 shop)) \<and>
   products (snd (checkout exact (Some bob) 300 shop)) ! 0 = products shop ! 0 \<and>
   map p_price (products (snd (checkout exact (Some bob) 300 shop))) = map p_price (products shop) \<and>
   cart_of (snd (checkout exact (Some bob) 300 shop)) (u_id alice) = cart_of shop (u_id alice)"
proof -
  let ?d' = "snd (checkout exact (Some bob) 300 shop)"
  have 1: "distinct (map p_id (products shop))" by (simp add: shop_eq)
  have "fst (checkout exact (Some bob) 300 shop) = Ok"
    by (rule checkout_defined)
      (simp_all add: shop_eq cart_of_def bob_def get_product_def ordered_quantity_def
         fits_int64_def)
  then have 2: "checkout exact (Some bob) 300 shop = (Ok, ?d')"
    by (simp add: prod_eq_iff)
  note f = checkout_frame [OF 1 2]
  have n: "u_id alice \<noteq> u_id bob" by (simp add: alice_def bob_def)
  have len: "length (products shop) = 2" by (simp add: shop_eq)
  have c: "p_id (products shop ! 0) \<notin> ci_product_id ` set (cart_of shop (u_id bob))"
    by (simp add: shop_eq cart_of_def bob_def)
  from f have l: "list_all2 (\<lambda>p p'. p_id p' = p_id p \<and> p_name p' = p_name p \<and>
                     p_description p' = p_description p \<and> p_price p' = p_price p \<and>
                     p_image_url p' = p_image_url p \<and> p_created_at p' = p_created_at p \<and>
                     (p_id p \<notin> ci_product_id ` set (cart_of shop (u_id bob)) \<longrightarrow> p' = p))
           (products shop) (products ?d')" by blast
  from l have "products ?d' ! 0 = products shop ! 0"
    using c len by (auto simp: list_all2_conv_all_nth)
  moreover from l have "map p_price (products ?d') = map p_price (products shop)"
    by (auto simp: list_all2_conv_all_nth intro!: nth_equalityI)
  moreover from f n have "cart_of ?d' (u_id alice) = cart_of shop (u_id alice)" by blast
  ultimately show ?thesis using 1 2 by blast
qed

subsection \<open>Stock after checkout\<close>

text \<open>
  C2 claims that a stock that is not negative before a checkout is not negative after
  it. Checkout subtracts without comparing: in the example shop, reached from the empty
  database by the requests of \<open>shop_requests\<close>, one pair of headphones is in stock and
  alice's cart asks for two; her checkout succeeds and leaves a stock of -1.
\<close>

theorem checkout_oversells:
  "map p_stock (products (run exact shop_requests empty_db)) = [1, 20] \<and>
   fst (checkout exact (Some alice) 200 (run exact shop_requests empty_db)) = Ok \<and>
   map p_stock (products (snd (checkout exact (Some alice) 200 (run exact shop_requests empty_db)))) = [- 1, 19]"
  using checkout_shop by (simp add: shop_def [symmetric]) (simp add: shop_eq)

text \<open>
  C2, amended. A checkout that fails leaves every stock as it was. A checkout that
  succeeds sets the stock of each product to its stock before minus the quantity that
  the user's cart lines ask of that product; so all stocks are non-negative afterwards
  exactly when every product's stock before was at least that quantity.
\<close>

theorem checkout_stock_after:
  assumes "distinct (map p_id (products d))" and "checkout fl current_user now d = (r, d')"
  shows "(r \<noteq> Ok \<longrightarrow> d' = d) \<and>
         (r = Ok \<longrightarrow> (\<exists>u. current_user = Some u \<and>
            products d' =
              map (\<lambda>p. p\<lparr>p_stock := p_stock p - ordered_quantity (cart_of d (u_id u)) (p_id p)\<rparr>)
                (products d) \<and>
            ((\<forall>p' \<in> set (products d'). 0 \<le> p_stock p') \<longleftrightarrow>
             (\<forall>p \<in> set (products d). ordered_quantity (cart_of d (u_id u)) (p_id p) \<le> p_stock p))))"
proof (intro conjI impI)
  assume "r \<noteq> Ok"
  then obtain e where "r = Err e" by (cases r) auto
  with assms(2) show "d' = d" by (simp add: checkout_failure)
next
  assume ok: "r = Ok"
  with assms(2) obtain u where u: "current_user = Some u"
    by (cases current_user) (auto simp: checkout_def)
  from checkout_Ok [OF assms(1)] assms(2) ok u have
    p: "products d' =
       map (\<lambda>p. p\<lparr>p_stock := p_stock p - ordered_quantity (cart_of d (u_id u)) (p_id p)\<rparr>)
         (products d)"
    by blast
  show "\<exists>u. current_user = Some u \<and>
            products d' =
              map (\<lambda>p. p\<lparr>p_stock := p_stock p - ordered_quantity (cart_of d (u_id u)) (p_id p)\<rparr>)
                (products d) \<and>
            ((\<forall>p' \<in> set (products d'). 0 \<le> p_stock p') \<longleftrightarrow>
             (\<forall>p \<in> set (products d). ordered_quantity (cart_of d (u_id u)) (p_id p) \<le> p_stock p))"
    using u p by simp
qed

theorem checkout_stock_after_witness:
  "distinct (map p_id (products shop)) \<and>
   map p_stock (products (snd (checkout exact (Some bob) 300 shop))) = [1, 19] \<and>
   snd (checkout exact (Some admin) 300 shop) = shop"
proof -
  have 1: "distinct (map p_id (products shop))" by (simp add: shop_eq)
  have "fst (checkout exact (Some bob) 300 shop) = Ok"
    by (rule checkout_defined)
      (simp_all add: shop_eq cart_of_def bob_def get_product_def ordered_quantity_def
         fits_int64_def)
  then have 2: "checkout exact (Some bob) 300 shop = (Ok, snd (checkout exact (Some bob) 300 shop))"
    by (simp add: prod_eq_iff)
  have "fst (checkout exact (Some admin) 300 shop) = Err EmptyCart"
    by (simp add: checkout_def shop_eq cart_of_def admin_def)
  then have 3: "checkout exact (Some admin) 300 shop = (Err EmptyCart, snd (checkout exact (Some admin) 300 shop))"
    by (simp add: prod_eq_iff)
  from checkout_stock_after [OF 1 2]
  have "products (snd (checkout exact (Some bob) 300 shop)) =
      map (\<lambda>p. p\<lparr>p_stock := p_stock p - ordered_quantity (cart_of shop (u_id bob)) (p_id p)\<rparr>)
        (products shop)"
    by auto
  then have "map p_stock (products (snd (checkout exact (Some bob) 300 shop))) = [1, 19]"
    by (simp add: shop_eq cart_of_def ordered_quantity_def bob_def)
  moreover from checkout_stock_after [OF 1 3]
  have "snd (checkout exact (Some admin) 300 shop) = shop" by simp
  ultimately show ?thesis using 1 by simp
qed

subsection \<open>Admin edits\<close>

text \<open>
  C8. \<open>admin_edit_product\<close>, whoever calls it, for whatever product and with whatever
  form (a new price included), returns a database with the same order items and the same
  orders: price and quantity of every existing order item stay as the checkout wrote
  them.
\<close>

theorem admin_edit_product_keeps_orders:
  "order_items (snd (admin_edit_product current_user product_id request d)) = order_items d \<and>
   orders (snd (admin_edit_product current_user product_id request d)) = orders d"
  by (simp add: admin_edit_product_def split: option.splits)

theorem admin_edit_product_keeps_orders_witness:
  "map oi_price (order_items (snd (admin_edit_product (Some admin) 1
       (Some (headphones\<lparr>f_price := 12.5\<rparr>)) sold))) = [10, 449.5] \<and>
   map p_price (products (snd (admin_edit_product (Some admin) 1
       (Some (headphones\<lparr>f_price := 12.5\<rparr>)) sold))) = [12.5, 449.5]"
  using admin_edit_product_keeps_orders [of "Some admin" 1 "Some (headphones\<lparr>f_price := 12.5\<rparr>)" sold]
  by (simp add: sold_eq admin_edit_product_def admin_required_def admin_def get_product_def
      headphones_def fits_int64_def)

text \<open>
  C9. For an admin, an order of the ledger and any string, \<open>admin_update_order_status\<close>
  succeeds and stores exactly that string as the order's status; the order's other fields
  (id, user id, total amount, creation time), every other order, the order items, the
  products and the carts are unchanged, and the order with its new status is in the
  order history of its owner.
\<close>

theorem admin_update_order_status_overwrites:
  assumes "u_is_admin a" and "ord \<in> set (orders d)" and "distinct (map o_id (orders d))"
  shows "\<exists>d'. admin_update_order_status (Some a) (o_id ord) status d = (Ok, d') \<and>
           orders d' = map (\<lambda>r. if r = ord then ord\<lparr>o_status := status\<rparr> else r) (orders d) \<and>
           order_items d' = order_items d \<and> products d' = products d \<and>
           cart_items d' = cart_items d \<and>
           (\<forall>owner. u_id owner = o_user_id ord \<longrightarrow>
              fst (order_history (Some owner) d') = Ok \<and>
              ord\<lparr>o_status := status\<rparr> \<in> set (snd (order_history (Some owner) d')))"
proof -
  let ?d' = "d\<lparr>orders := map (\<lambda>r. if r = ord then ord\<lparr>o_status := status\<rparr> else r) (orders d)\<rparr>"
  have "map (\<lambda>r. if o_id r = o_id ord then r\<lparr>o_status := status\<rparr> else r) (orders d) =
        map (\<lambda>r. if r = ord then ord\<lparr>o_status := status\<rparr> else r) (orders d)"
    using assms(3,2) by (rule map_key)
  then have "admin_update_order_status (Some a) (o_id ord) status d = (Ok, ?d')"
    using assms by (simp add: admin_update_order_status_def admin_required_def get_order_key)
  moreover have "fst (order_history (Some owner) ?d') = Ok \<and>
      ord\<lparr>o_status := status\<rparr> \<in> set (snd (order_history (Some owner) ?d'))"
    if "u_id owner = o_user_id ord" for owner
    using that assms(2) by (auto simp: order_history_def image_iff)
  ultimately show ?thesis by simp
qed

theorem admin_update_order_status_overwrites_witness:
  "u_is_admin admin \<and>
   orders (snd (admin_update_order_status (Some admin) 1 ''lost at sea'' sold)) =
     [\<lparr>o_id = 1, o_user_id = 2, o_total_amount = 469.5, o_status = ''lost at sea'',
       o_created_at = 200\<rparr>] \<and>
   order_items (snd (admin_update_order_status (Some admin) 1 ''lost at sea'' sold)) =
     order_items sold \<and>
   \<lparr>o_id = 1, o_user_id = 2, o_total_amount = 469.5, o_status = ''lost at sea'',
       o_created_at = 200\<rparr> \<in> set (snd (order_history (Some alice)
          (snd (admin_update_order_status (Some admin) 1 ''lost at sea'' sold))))"
proof -
  let ?ord = "\<lparr>o_id = 1, o_user_id = 2, o_total_amount = 469.5, o_status = ''pending'',
       o_created_at = 200\<rparr> :: real Order"
  have 1: "u_is_admin admin" by (simp add: admin_def)
  have 2: "?ord \<in> set (orders sold)" by (simp add: sold_eq)
  have 3: "distinct (map o_id (orders sold))" by (simp add: sold_eq)
  have 4: "u_id alice = o_user_id ?ord" by (simp add: alice_def)
  from admin_update_order_status_overwrites [OF 1 2 3, of "''lost at sea''"] 4
  obtain d' where
    "admin_update_order_status (Some admin) (o_id ?ord) ''lost at sea'' sold = (Ok, d')" and
    "orders d' = map (\<lambda>r. if r = ?ord then ?ord\<lparr>o_status := ''lost at sea''\<rparr> else r) (orders sold)" and
    "order_items d' = order_items sold" and
    "?ord\<lparr>o_status := ''lost at sea''\<rparr> \<in> set (snd (order_history (Some alice) d'))"
    by blast
  then show ?thesis using 1 by (simp add: sold_eq)
qed

subsection \<open>The cart against the ledger\<close>

text \<open>The expected quantity, event by event.\<close>

lemma expected_quantity_Nil: "expected_quantity [] user_id product_id = 0"
  by (simp add: expected_quantity_def)

lemma expected_quantity_Added:
  "expected_quantity (Added u p # evs) user_id product_id =
     (if u = user_id \<and> p = product_id then 1 else 0) + expected_quantity evs user_id product_id"
  by (simp add: expected_quantity_def)

lemma expected_quantity_Overwritten:
  "expected_quantity (Overwritten u p q # evs) user_id product_id =
     (if u = user_id \<and> p = product_id then q else expected_quantity evs user_id product_id)"
  by (simp add: expected_quantity_def)

lemma expected_quantity_Deleted:
  "expected_quantity (Deleted u p # evs) user_id product_id =
     (if u = user_id \<and> p = product_id then 0 else expected_quantity evs user_id product_id)"
  by (simp add: expected_quantity_def)

lemma expected_quantity_Cleared:
  "expected_quantity (Cleared u # evs) user_id product_id =
     (if u = user_id then 0 else expected_quantity evs user_id product_id)"
  by (simp add: expected_quantity_def)

text \<open>\<open>ledger_ok\<close> is kept by each way a route changes the cart.\<close>

lemma ledger_line:
  assumes "ledger_ok d evs" and "line \<in> set (cart_items d)"
  shows "lines_of d (ci_user_id line) (ci_product_id line) = [line] \<and>
         expected_quantity evs (ci_user_id line) (ci_product_id line) = ci_quantity line \<and>
         0 < ci_quantity line"
proof -
  let ?xs = "lines_of d (ci_user_id line) (ci_product_id line)"
  let ?e = "expected_quantity evs (ci_user_id line) (ci_product_id line)"
  have m: "line \<in> set ?xs" using assms(2) by (simp add: lines_of_def)
  from assms(1) have q: "map ci_quantity ?xs = (if ?e = 0 then [] else [?e])" and e: "0 \<le> ?e"
    unfolding ledger_ok_def by blast+
  from m have "?xs \<noteq> []" by auto
  with q have ne: "?e \<noteq> 0" and "map ci_quantity ?xs = [?e]" by (auto split: if_splits)
  then obtain x where x: "?xs = [x]" by (cases ?xs) auto
  with m have "x = line" by simp
  with x \<open>map ci_quantity ?xs = [?e]\<close> ne e show ?thesis by simp
qed

lemma ledger_ok_frame:
  "cart_items d' = cart_items d \<Longrightarrow> ledger_ok d evs \<Longrightarrow> ledger_ok d' evs"
  by (simp add: ledger_ok_def lines_of_def)

lemma ledger_ok_append:
  assumes "ledger_ok d evs" and "lines_of d u p = []" and "n \<notin> set (map ci_id (cart_items d))"
  shows "ledger_ok
           (d\<lparr>cart_items := cart_items d @
               [\<lparr>ci_id = n, ci_user_id = u, ci_product_id = p, ci_quantity = 1\<rparr>]\<rparr>)
           (Added u p # evs)"
proof -
  from assms(1) have e: "\<And>a b. 0 \<le> expected_quantity evs a b" and
    q: "\<And>a b. map ci_quantity (lines_of d a b) =
        (if expected_quantity evs a b = 0 then [] else [expected_quantity evs a b])" and
    i: "distinct (map ci_id (cart_items d))"
    unfolding ledger_ok_def by blast+
  from q [of u p] assms(2) have z: "expected_quantity evs u p = 0"
    by (simp split: if_splits)
  show ?thesis
    unfolding ledger_ok_def
  proof (intro conjI allI)
    show "distinct (map ci_id (cart_items (d\<lparr>cart_items := cart_items d @
               [\<lparr>ci_id = n, ci_user_id = u, ci_product_id = p, ci_quantity = 1\<rparr>]\<rparr>)))"
      using i assms(3) by simp
  next
    fix a b
    show "0 \<le> expected_quantity (Added u p # evs) a b"
      using e [of a b] by (simp add: expected_quantity_Added)
    show "map ci_quantity (lines_of (d\<lparr>cart_items := cart_items d @
               [\<lparr>ci_id = n, ci_user_id = u, ci_product_id = p, ci_quantity = 1\<rparr>]\<rparr>) a b) =
          (if expected_quantity (Added u p # evs) a b = 0 then []
           else [expected_quantity (Added u p # evs) a b])"
    proof (cases "u = a \<and> p = b")
      case True
      with z assms(2) show ?thesis
        by (simp add: expected_quantity_Added lines_of_def)
    next
      case False
      then have "lines_of (d\<lparr>cart_items := cart_items d @
               [\<lparr>ci_id = n, ci_user_id = u, ci_product_id = p, ci_quantity = 1\<rparr>]\<rparr>) a b =
             lines_of d a b"
        by (auto simp: lines_of_def)
      with False q [of a b] show ?thesis
        by (simp add: expected_quantity_Added)
    qed
  qed
qed

lemma ledger_ok_set:
  assumes "ledger_ok d evs" and "line \<in> set (cart_items d)" and "0 < q"
    and "\<And>a b. expected_quantity evs' a b =
           (if a = ci_user_id line \<and> b = ci_product_id line then q
            else expected_quantity evs a b)"
  shows "ledger_ok
           (d\<lparr>cart_items :=
               map (\<lambda>i. if i = line then line\<lparr>ci_quantity := q\<rparr> else i) (cart_items d)\<rparr>)
           evs'"
proof -
  let ?g = "\<lambda>i. if i = line then line\<lparr>ci_quantity := q\<rparr> else i"
  let ?d' = "d\<lparr>cart_items := map ?g (cart_items d)\<rparr>"
  from assms(1) have e: "\<And>a b. 0 \<le> expected_quantity evs a b" and
    qs: "\<And>a b. map ci_quantity (lines_of d a b) =
        (if expected_quantity evs a b = 0 then [] else [expected_quantity evs a b])" and
    i: "distinct (map ci_id (cart_items d))"
    unfolding ledger_ok_def by blast+
  have single: "lines_of d (ci_user_id line) (ci_product_id line) = [line]"
    using ledger_line [OF assms(1,2)] by simp
  have l: "lines_of ?d' a b = map ?g (lines_of d a b)" for a b
    unfolding lines_of_def by (simp add: filter_map_same)
  have ids: "ci_id \<circ> ?g = ci_id" by (rule ext) simp
  show ?thesis
    unfolding ledger_ok_def
  proof (intro conjI allI)
    show "distinct (map ci_id (cart_items ?d'))" using i by (simp add: ids)
  next
    fix a b
    show "0 \<le> expected_quantity evs' a b"
      using e [of a b] assms(3) by (simp add: assms(4))
    show "map ci_quantity (lines_of ?d' a b) =
          (if expected_quantity evs' a b = 0 then [] else [expected_quantity evs' a b])"
    proof (cases "a = ci_user_id line \<and> b = ci_product_id line")
      case True
      with single assms(3) show ?thesis by (simp add: l assms(4))
    next
      case False
      then have "line \<notin> set (lines_of d a b)" by (auto simp: lines_of_def)
      then have "map ?g (lines_of d a b) = lines_of d a b"
        by (intro map_idI) auto
      moreover have "expected_quantity evs' a b = expected_quantity evs a b"
        using False by (auto simp: assms(4))
      ultimately show ?thesis using qs [of a b] by (simp add: l)
    qed
  qed
qed

lemma ledger_ok_delete:
  assumes "ledger_ok d evs" and "line \<in> set (cart_items d)"
  shows "ledger_ok (d\<lparr>cart_items := filter (\<lambda>i. i \<noteq> line) (cart_items d)\<rparr>)
           (Deleted (ci_user_id line) (ci_product_id line) # evs)"
proof -
  let ?d' = "d\<lparr>cart_items := filter (\<lambda>i. i \<noteq> line) (cart_items d)\<rparr>"
  let ?evs' = "Deleted (ci_user_id line) (ci_product_id line) # evs"
  from assms(1) have e: "\<And>a b. 0 \<le> expected_quantity evs a b" and
    qs: "\<And>a b. map ci_quantity (lines_of d a b) =
        (if expected_quantity evs a b = 0 then [] else [expected_quantity evs a b])" and
    i: "distinct (map ci_id (cart_items d))"
    unfolding ledger_ok_def by blast+
  have single: "lines_of d (ci_user_id line) (ci_product_id line) = [line]"
    using ledger_line [OF assms(1,2)] by simp
  have l: "lines_of ?d' a b = filter (\<lambda>i. i \<noteq> line) (lines_of d a b)" for a b
    unfolding lines_of_def by (auto intro: filter_cong)
  show ?thesis
    unfolding ledger_ok_def
  proof (intro conjI allI)
    show "distinct (map ci_id (cart_items ?d'))" using i by (simp add: distinct_map_filter)
  next
    fix a b
    show "0 \<le> expected_quantity ?evs' a b"
      using e [of a b] by (simp add: expected_quantity_Deleted)
    show "map ci_quantity (lines_of ?d' a b) =
          (if expected_quantity ?evs' a b = 0 then [] else [expected_quantity ?evs' a b])"
    proof (cases "ci_user_id line = a \<and> ci_product_id line = b")
      case True
      then have "lines_of ?d' a b = []" using single by (auto simp: l)
      with True show ?thesis by (simp add: expected_quantity_Deleted)
    next
      case False
      then have "line \<notin> set (lines_of d a b)" by (auto simp: lines_of_def)
      then have "filter (\<lambda>i. i \<noteq> line) (lines_of d a b) = lines_of d a b"
        by (simp add: filter_id_conv) blast
      moreover have "expected_quantity ?evs' a b = expected_quantity evs a b"
        using False by (auto simp: expected_quantity_Deleted)
      ultimately show ?thesis using qs [of a b] by (simp add: l)
    qed
  qed
qed

lemma ledger_ok_clear:
  assumes "ledger_ok d evs"
  shows "ledger_ok (d\<lparr>cart_items := filter (\<lambda>i. ci_user_id i \<noteq> u) (cart_items d)\<rparr>)
           (Cleared u # evs)"
proof -
  let ?d' = "d\<lparr>cart_items := filter (\<lambda>i. ci_user_id i \<noteq> u) (cart_items d)\<rparr>"
  from assms(1) have e: "\<And>a b. 0 \<le> expected_quantity evs a b" and
    qs: "\<And>a b. map ci_quantity (lines_of d a b) =
        (if expected_quantity evs a b = 0 then [] else [expected_quantity evs a b])" and
    i: "distinct (map ci_id (cart_items d))"
    unfolding ledger_ok_def by blast+
  have l: "lines_of ?d' a b = (if a = u then [] else lines_of d a b)" for a b
    unfolding lines_of_def by (auto simp: filter_empty_conv intro: filter_cong)
  show ?thesis
    unfolding ledger_ok_def
  proof (intro conjI allI)
    show "distinct (map ci_id (cart_items ?d'))" using i by (simp add: distinct_map_filter)
  next
    fix a b
    show "0 \<le> expected_quantity (Cleared u # evs) a b"
      using e [of a b] by (simp add: expected_quantity_Cleared)
    show "map ci_quantity (lines_of ?d' a b) =
          (if expected_quantity (Cleared u # evs) a b = 0 then []
           else [expected_quantity (Cleared u # evs) a b])"
      using qs [of a b] by (auto simp: l expected_quantity_Cleared)
  qed
qed

text \<open>A request that does not end \<open>Ok\<close> returns the database it was given; one that
  ends \<open>Ok\<close> keeps \<open>ledger_ok\<close> with its event added to the log.\<close>

lemma handle_failure: "fst (handle fl r d) \<noteq> Ok \<Longrightarrow> snd (handle fl r d) = d"
proof (cases r)
  case (AddToCart cu product_id)
  assume "fst (handle fl r d) \<noteq> Ok"
  with AddToCart show ?thesis
    by (auto simp: add_to_cart_def split: option.splits if_splits)
next
  case (UpdateCart cu item_id quantity)
  assume "fst (handle fl r d) \<noteq> Ok"
  with UpdateCart show ?thesis
    by (auto simp: update_cart_def split: option.splits if_splits)
next
  case (RemoveFromCart cu item_id)
  assume "fst (handle fl r d) \<noteq> Ok"
  with RemoveFromCart show ?thesis
    by (auto simp: remove_from_cart_def split: option.splits if_splits)
next
  case (Checkout cu now)
  assume f: "fst (handle fl r d) \<noteq> Ok"
  obtain x d' where c: "checkout fl cu now d = (x, d')" by (cases "checkout fl cu now d")
  with f Checkout obtain e where "x = Err e" by (cases x) auto
  with c Checkout checkout_failure [of fl cu now d e d'] show ?thesis by simp
next
  case (AdminAddProduct cu form now)
  assume "fst (handle fl r d) \<noteq> Ok"
  with AdminAddProduct show ?thesis
    by (auto simp: admin_add_product_def split: option.splits if_splits)
next
  case (AdminEditProduct cu product_id req)
  assume "fst (handle fl r d) \<noteq> Ok"
  with AdminEditProduct show ?thesis
    by (auto simp: admin_edit_product_def split: option.splits if_splits)
next
  case (AdminUpdateOrderStatus cu order_id status)
  assume "fst (handle fl r d) \<noteq> Ok"
  with AdminUpdateOrderStatus show ?thesis
    by (auto simp: admin_update_order_status_def split: option.splits if_splits)
qed

lemma ledger_ok_add_to_cart:
  assumes "ledger_ok d evs" and "fst (add_to_cart cu product_id d) = Ok"
  shows "ledger_ok (snd (add_to_cart cu product_id d))
           (cart_event_of (AddToCart cu product_id) d @ evs)"
proof (cases cu)
  case None
  with assms(2) show ?thesis by (simp add: add_to_cart_def)
next
  case (Some u)
  show ?thesis
  proof (cases "get_product d product_id")
    case None
    with Some assms(2) show ?thesis by (simp add: add_to_cart_def)
  next
    case p: (Some product)
    from assms(1) have i: "distinct (map ci_id (cart_items d))"
      unfolding ledger_ok_def by blast
    show ?thesis
    proof (cases "find (\<lambda>i. ci_user_id i = u_id u \<and> ci_product_id i = product_id) (cart_items d)")
      case None
      then have "lines_of d (u_id u) product_id = []"
        by (simp add: find_eq_filter [of _ "cart_items d"] lines_of_def split: list.splits)
      from ledger_ok_append [OF assms(1) this next_id_fresh] None p Some
      show ?thesis by (simp add: add_to_cart_def)
    next
      case f: (Some line)
      then have m: "line \<in> set (cart_items d)" and u: "ci_user_id line = u_id u"
        and k: "ci_product_id line = product_id"
        by (auto dest: find_Some_set)
      from f p Some assms(2) have fits: "fits_int64 (ci_quantity line + 1)"
        by (simp add: add_to_cart_def split: if_splits)
      from ledger_line [OF assms(1) m] have q: "0 < ci_quantity line" and
        x: "expected_quantity evs (ci_user_id line) (ci_product_id line) = ci_quantity line"
        by simp_all
      have led: "ledger_ok
           (d\<lparr>cart_items :=
               map (\<lambda>i. if i = line then line\<lparr>ci_quantity := ci_quantity line + 1\<rparr> else i)
                 (cart_items d)\<rparr>)
           (Added (u_id u) product_id # evs)"
        using assms(1) m
      proof (rule ledger_ok_set)
        show "0 < ci_quantity line + 1" using q by simp
        show "expected_quantity (Added (u_id u) product_id # evs) a b =
           (if a = ci_user_id line \<and> b = ci_product_id line then ci_quantity line + 1
            else expected_quantity evs a b)" for a b
          using x u k by (auto simp: expected_quantity_Added)
      qed
      have eq: "map (\<lambda>i. if ci_id i = ci_id line
                then i\<lparr>ci_quantity := ci_quantity line + 1\<rparr> else i) (cart_items d) =
          map (\<lambda>i. if i = line then line\<lparr>ci_quantity := ci_quantity line + 1\<rparr> else i)
            (cart_items d)"
        using i m by (rule map_key)
      show ?thesis using led f p Some fits by (simp add: add_to_cart_def eq)
    qed
  qed
qed

lemma ledger_ok_update_cart:
  assumes "ledger_ok d evs" and "fst (update_cart cu item_id quantity d) = Ok"
  shows "ledger_ok (snd (update_cart cu item_id quantity d))
           (cart_event_of (UpdateCart cu item_id quantity) d @ evs)"
proof (cases cu)
  case None
  with assms(2) show ?thesis by (simp add: update_cart_def)
next
  case (Some u)
  show ?thesis
  proof (cases "get_cart_item d item_id")
    case None
    with Some assms(2) show ?thesis by (simp add: update_cart_def)
  next
    case g: (Some line)
    then have m: "line \<in> set (cart_items d)" and k: "ci_id line = item_id"
      by (simp_all add: get_cart_item_Some)
    from assms(1) have i: "distinct (map ci_id (cart_items d))"
      unfolding ledger_ok_def by blast
    from g Some assms(2) have own: "ci_user_id line = u_id u"
      by (simp add: update_cart_def split: if_splits)
    show ?thesis
    proof (cases "quantity \<le> 0")
      case True
      have eq: "filter (\<lambda>i. ci_id i \<noteq> ci_id line) (cart_items d) =
          filter (\<lambda>i. i \<noteq> line) (cart_items d)"
        using i m by (rule filter_key)
      from ledger_ok_delete [OF assms(1) m] True own g Some show ?thesis
        by (simp add: update_cart_def eq)
    next
      case False
      with g Some own assms(2) have fits: "fits_int64 quantity"
        by (simp add: update_cart_def split: if_splits)
      have eq: "map (\<lambda>i. if ci_id i = ci_id line then i\<lparr>ci_quantity := quantity\<rparr> else i)
            (cart_items d) =
          map (\<lambda>i. if i = line then line\<lparr>ci_quantity := quantity\<rparr> else i) (cart_items d)"
        using i m by (rule map_key)
      have "ledger_ok
         (d\<lparr>cart_items :=
             map (\<lambda>i. if i = line then line\<lparr>ci_quantity := quantity\<rparr> else i) (cart_items d)\<rparr>)
         (Overwritten (u_id u) (ci_product_id line) quantity # evs)"
        using assms(1) m
      proof (rule ledger_ok_set)
        show "0 < quantity" using False by simp
        show "expected_quantity (Overwritten (u_id u) (ci_product_id line) quantity # evs) a b =
           (if a = ci_user_id line \<and> b = ci_product_id line then quantity
            else expected_quantity evs a b)" for a b
          using own by (auto simp: expected_quantity_Overwritten)
      qed
      with False own g Some fits show ?thesis
        by (simp add: update_cart_def eq)
    qed
  qed
qed

lemma ledger_ok_remove_from_cart:
  assumes "ledger_ok d evs" and "fst (remove_from_cart cu item_id d) = Ok"
  shows "ledger_ok (snd (remove_from_cart cu item_id d))
           (cart_event_of (RemoveFromCart cu item_id) d @ evs)"
proof (cases cu)
  case None
  with assms(2) show ?thesis by (simp add: remove_from_cart_def)
next
  case (Some u)
  show ?thesis
  proof (cases "get_cart_item d item_id")
    case None
    with Some assms(2) show ?thesis by (simp add: remove_from_cart_def)
  next
    case g: (Some line)
    then have m: "line \<in> set (cart_items d)" and k: "ci_id line = item_id"
      by (simp_all add: get_cart_item_Some)
    from assms(1) have i: "distinct (map ci_id (cart_items d))"
      unfolding ledger_ok_def by blast
    from g Some assms(2) have own: "ci_user_id line = u_id u"
      by (simp add: remove_from_cart_def split: if_splits)
    have eq: "filter (\<lambda>i. ci_id i \<noteq> ci_id line) (cart_items d) =
        filter (\<lambda>i. i \<noteq> line) (cart_items d)"
      using i m by (rule filter_key)
    from ledger_ok_delete [OF assms(1) m] own g Some show ?thesis
      by (simp add: remove_from_cart_def eq)
  qed
qed

lemma ledger_ok_checkout:
  assumes "ledger_ok d evs" and "fst (checkout fl cu now d) = Ok"
  shows "ledger_ok (snd (checkout fl cu now d)) (cart_event_of (Checkout cu now) d @ evs)"
proof (cases cu)
  case None
  with assms(2) show ?thesis by (simp add: checkout_def)
next
  case (Some u)
  obtain d' where c: "checkout fl (Some u) now d = (Ok, d')"
    using assms(2) Some by (cases "checkout fl (Some u) now d") auto
  then have "cart_items d' = filter (\<lambda>i. ci_user_id i \<noteq> u_id u) (cart_items d)"
    by (rule checkout_cart_items)
  then have "ledger_ok d' (Cleared (u_id u) # evs) =
      ledger_ok (d\<lparr>cart_items := filter (\<lambda>i. ci_user_id i \<noteq> u_id u) (cart_items d)\<rparr>)
        (Cleared (u_id u) # evs)"
    by (simp add: ledger_ok_def lines_of_def)
  with ledger_ok_clear [OF assms(1)] c Some show ?thesis by simp
qed

lemma ledger_ok_handle:
  assumes "ledger_ok d evs"
  shows "ledger_ok (snd (handle fl r d)) (cart_events fl r d @ evs)"
proof (cases "fst (handle fl r d) = Ok")
  case False
  with assms handle_failure [of fl r d] show ?thesis by (simp add: cart_events_def)
next
  case ok: True
  have "ledger_ok (snd (handle fl r d)) (cart_event_of r d @ evs)"
  proof (cases r)
    case (AddToCart cu product_id)
    with ledger_ok_add_to_cart [OF assms] ok show ?thesis by simp
  next
    case (UpdateCart cu item_id quantity)
    with ledger_ok_update_cart [OF assms] ok show ?thesis by simp
  next
    case (RemoveFromCart cu item_id)
    with ledger_ok_remove_from_cart [OF assms] ok show ?thesis by simp
  next
    case (Checkout cu now)
    with ledger_ok_checkout [OF assms] ok show ?thesis by simp
  next
    case (AdminAddProduct cu form now)
    have "cart_items (snd (admin_add_product cu form now d)) = cart_items d"
      by (simp add: admin_add_product_def split: option.splits)
    with AdminAddProduct assms show ?thesis by (simp add: ledger_ok_frame)
  next
    case (AdminEditProduct cu product_id req)
    have "cart_items (snd (admin_edit_product cu product_id req d)) = cart_items d"
      by (simp add: admin_edit_product_def split: option.splits)
    with AdminEditProduct assms show ?thesis by (simp add: ledger_ok_frame)
  next
    case (AdminUpdateOrderStatus cu order_id status)
    have "cart_items (snd (admin_update_order_status cu order_id status d)) = cart_items d"
      by (simp add: admin_update_order_status_def split: option.splits)
    with AdminUpdateOrderStatus assms show ?thesis by (simp add: ledger_ok_frame)
  qed
  with ok show ?thesis by (simp add: cart_events_def)
qed

lemma ledger_ok_run:
  "ledger_ok d evs \<Longrightarrow> ledger_ok (run fl reqs d) (cart_log fl reqs d @ evs)"
proof (induction reqs arbitrary: d evs)
  case Nil
  then show ?case by simp
next
  case (Cons r rs)
  from Cons.IH [OF ledger_ok_handle [OF Cons.prems]] show ?case by simp
qed


text \<open>The two logs differ only at a request that raises: where a request ends neither
  with \<open>OverflowError\<close> nor with \<open>AttributeError\<close>, the calls the specification
  counts are the calls the code carries out.\<close>

lemma line_totals_Inl: "line_totals fl d cart = Inl e \<Longrightarrow> e = AttributeError"
  by (induction cart) (auto split: option.splits sum.splits)

lemma checkout_items_Inl: "checkout_items order_id cart d = Inl e \<Longrightarrow> e = AttributeError"
  by (induction cart arbitrary: d) (auto split: option.splits)

lemma checkout_outcome:
  "fst (checkout fl (Some u) now d) = Ok \<or>
   fst (checkout fl (Some u) now d) = Err OverflowError \<or>
   fst (checkout fl (Some u) now d) = Err AttributeError \<or>
   cart_of d (u_id u) = []"
  by (auto simp: checkout_def Let_def split: sum.splits
      dest: line_totals_Inl checkout_items_Inl)

lemma checkout_Ok_cart: "fst (checkout fl (Some u) now d) = Ok \<Longrightarrow> cart_of d (u_id u) \<noteq> []"
  by (auto simp: checkout_def Let_def)

lemma events_agree:
  assumes "fst (handle fl r d) \<noteq> Err OverflowError"
    and "fst (handle fl r d) \<noteq> Err AttributeError"
  shows "cart_events fl r d = spec_events r d"
proof (cases r)
  case (AddToCart cu product_id)
  with assms show ?thesis
    by (cases cu)
      (auto simp: cart_events_def add_to_cart_def split: option.splits if_splits)
next
  case (UpdateCart cu item_id quantity)
  with assms show ?thesis
    by (cases cu)
      (auto simp: cart_events_def update_cart_def split: option.splits if_splits)
next
  case (RemoveFromCart cu item_id)
  with assms show ?thesis
    by (cases cu)
      (auto simp: cart_events_def remove_from_cart_def split: option.splits if_splits)
next
  case (Checkout cu now)
  show ?thesis
  proof (cases cu)
    case None
    with Checkout show ?thesis by (simp add: cart_events_def checkout_def)
  next
    case (Some u)
    with Checkout assms checkout_outcome [of fl u now d] checkout_Ok_cart [of fl u now d]
    show ?thesis
      by (auto simp: cart_events_def checkout_def)
  qed
qed (simp_all add: cart_events_def)

text \<open>
  C4 claims that a line's quantity is the number of \<open>add\<close> calls since the line was
  created, adjusted by overwrites and deletions. After the requests of
  \<open>full_requests\<close> and one more \<open>add\<close>, the calls the specification counts give
  2 ^ 63 (an overwrite with 2 ^ 63 - 1, then one add); the code's last \<open>add\<close> raises
  \<open>OverflowError\<close>, and the line holds 2 ^ 63 - 1.
\<close>

theorem cart_ledger_at_limit:
  "spec_log exact (full_requests @ [AddToCart (Some alice) 1]) empty_db =
     [Added 2 1, Overwritten 2 1 9223372036854775807, Added 2 1] \<and>
   expected_quantity (spec_log exact (full_requests @ [AddToCart (Some alice) 1]) empty_db)
     (u_id alice) 1 = 9223372036854775808 \<and>
   map ci_quantity
     (lines_of (run exact (full_requests @ [AddToCart (Some alice) 1]) empty_db) (u_id alice) 1) =
     [9223372036854775807]"
proof -
  have "spec_log exact (full_requests @ [AddToCart (Some alice) 1]) empty_db =
     [Added 2 1, Overwritten 2 1 9223372036854775807, Added 2 1]"
    by (simp add: full_requests_def empty_db_def admin_add_product_def admin_required_def
        add_to_cart_def update_cart_def get_product_def get_cart_item_def next_id_def admin_def
        alice_def headphones_def fits_int64_def)
  moreover have "run exact (full_requests @ [AddToCart (Some alice) 1]) empty_db = full"
    by (simp add: full_eq)
      (simp add: full_requests_def empty_db_def admin_add_product_def admin_required_def
        add_to_cart_def update_cart_def get_product_def get_cart_item_def next_id_def admin_def
        alice_def headphones_def fits_int64_def)
  ultimately show ?thesis
    by (simp add: expected_quantity_def alice_def) (simp add: full_eq lines_of_def)
qed

text \<open>
  C4, amended. Start from any database with an empty cart table and serve any sequence
  of requests. Then, for every user and product, the user has at most one cart line for
  the product, and the line's quantity is the quantity that the log of the requests that
  ended \<open>Ok\<close> gives: the quantity of the latest \<open>update_cart\<close> overwrite of the line
  (0 after its latest deletion, and when there was none) plus the number of
  \<open>add_to_cart\<close> calls since. There is no line when that quantity is 0. An \<open>add\<close>
  or an overwrite that would store a quantity beyond 2 ^ 63 - 1 raises, changes nothing
  and is not counted.
\<close>

theorem cart_ledger:
  assumes "cart_items d0 = []"
  shows "length (lines_of (run fl reqs d0) user_id product_id) \<le> 1 \<and>
         map ci_quantity (lines_of (run fl reqs d0) user_id product_id) =
           (if expected_quantity (cart_log fl reqs d0) user_id product_id = 0 then []
            else [expected_quantity (cart_log fl reqs d0) user_id product_id])"
proof -
  have "ledger_ok d0 []"
    using assms by (simp add: ledger_ok_def lines_of_def expected_quantity_Nil)
  from ledger_ok_run [OF this, of fl reqs]
  have q: "map ci_quantity (lines_of (run fl reqs d0) user_id product_id) =
           (if expected_quantity (cart_log fl reqs d0) user_id product_id = 0 then []
            else [expected_quantity (cart_log fl reqs d0) user_id product_id])"
    unfolding ledger_ok_def by simp
  have "length (lines_of (run fl reqs d0) user_id product_id) =
        length (map ci_quantity (lines_of (run fl reqs d0) user_id product_id))"
    by simp
  also have "\<dots> \<le> 1" unfolding q by simp
  finally show ?thesis using q by simp
qed

lemma cart_session_log:
  "cart_log exact cart_session empty_db =
     [Added 3 1, Deleted 3 1, Added 3 1, Added 2 1, Overwritten 2 1 5, Added 2 1, Added 2 1,
      Added 2 1]"
  by (simp add: cart_session_def empty_db_def admin_add_product_def admin_required_def
      add_to_cart_def update_cart_def remove_from_cart_def get_product_def get_cart_item_def
      next_id_def admin_def alice_def bob_def headphones_def fits_int64_def cart_events_def
      no_row_def)

lemma full_session_log:
  "cart_log exact (full_requests @ [AddToCart (Some alice) 1]) empty_db =
     [Overwritten 2 1 9223372036854775807, Added 2 1]"
  by (simp add: full_requests_def empty_db_def admin_add_product_def admin_required_def
      add_to_cart_def update_cart_def get_product_def get_cart_item_def next_id_def admin_def
      alice_def headphones_def fits_int64_def cart_events_def)

theorem cart_ledger_witness:
  "cart_items (empty_db :: real db) = [] \<and>
   map ci_quantity (lines_of (run exact cart_session empty_db) (u_id alice) 1) = [6] \<and>
   map ci_quantity (lines_of (run exact cart_session empty_db) (u_id bob) 1) = [1] \<and>
   map ci_quantity (lines_of (run exact cart_session empty_db) (u_id bob) 7) = [] \<and>
   map ci_quantity
     (lines_of (run exact (full_requests @ [AddToCart (Some alice) 1]) empty_db) (u_id alice) 1) =
     [9223372036854775807]"
proof -
  have h: "cart_items (empty_db :: real db) = []" by (simp add: empty_db_def)
  have "expected_quantity (cart_log exact cart_session empty_db) (u_id alice) 1 = 6"
    and "expected_quantity (cart_log exact cart_session empty_db) (u_id bob) 1 = 1"
    and "expected_quantity (cart_log exact cart_session empty_db) (u_id bob) 7 = 0"
    and "expected_quantity
          (cart_log exact (full_requests @ [AddToCart (Some alice) 1]) empty_db) (u_id alice) 1 =
         9223372036854775807"
    by (simp_all only: cart_session_log full_session_log)
      (simp_all add: expected_quantity_def alice_def bob_def)
  with cart_ledger [OF h, of exact cart_session "u_id alice" 1]
    cart_ledger [OF h, of exact cart_session "u_id bob" 1]
    cart_ledger [OF h, of exact cart_session "u_id bob" 7]
    cart_ledger [OF h, of exact "full_requests @ [AddToCart (Some alice) 1]" "u_id alice" 1] h
  show ?thesis by simp
qed

end
